theory Spec2Isabelle
  imports Complex_Main "HOL-Library.Word" "HOL-Library.Sublist"
begin

unbundle bit_operations_syntax

section \<open>The TinyLoRa driver (lib/adafruit\_tinylora/adafruit\_tinylora.py)\<close>

text \<open>
  A shallow embedding of the classes \<open>TTN\<close> and \<open>TinyLoRa\<close>. Python integers are
  \<open>int\<close>, the elements of a \<open>bytearray\<close> are \<open>8 word\<close>, an \<open>Optional[int]\<close> is
  an \<open>int option\<close>. Every method is an action on an explicit state; an exception is
  the value \<open>Inl e\<close>, and assignments made before it stay in the state that is
  returned with it. An action that does not return (the transmit-complete poll can
  spin for ever) has the value \<open>None\<close>.
\<close>

subsection \<open>Data\<close>

type_synonym byte = "8 word"

text \<open>
  The exceptions of the module. Those it raises itself carry their message; the others
  are raised by the interpreter: \<open>ValueError\<close> and \<open>BadOperand\<close> (a \<open>TypeError\<close>)
  when a value that is not an integer of \<open>range(256)\<close> is stored into a
  \<open>bytearray\<close>, \<open>IndexError\<close> by an index out of range, \<open>LookupError\<close> by a
  missing entry of the frequency table (a \<open>KeyError\<close> or an \<open>IndexError\<close>,
  depending on the table's container).
\<close>

datatype error =
    TypeError string
  | KeyError string
  | RuntimeError string
  | ValueError
  | BadOperand
  | IndexError
  | LookupError

definition DeviceNotDetected :: error where
  "DeviceNotDetected = TypeError ''Can not detect LoRa Module. Please check wiring!''"

definition UnsupportedRegion :: error where
  "UnsupportedRegion = TypeError ''Country Code Incorrect/Unsupported''"

definition UnsupportedDatarate :: error where
  "UnsupportedDatarate = KeyError ''Invalid or Unsupported Datarate.''"

definition SendTimeout :: error where
  "SendTimeout = RuntimeError ''Timeout during packet send''"

text \<open>The module's constants (RFM module settings and registers).\<close>

definition MODE_SLEEP :: int where "MODE_SLEEP = 0x00"
definition MODE_LORA :: int where "MODE_LORA = 0x80"
definition MODE_STDBY :: int where "MODE_STDBY = 0x01"
definition MODE_TX :: int where "MODE_TX = 0x83"
definition TRANSMIT_DIRECTION_UP :: int where "TRANSMIT_DIRECTION_UP = 0x00"
definition REG_PA_CONFIG :: int where "REG_PA_CONFIG = 0x09"
definition REG_PREAMBLE_MSB :: int where "REG_PREAMBLE_MSB = 0x20"
definition REG_PREAMBLE_LSB :: int where "REG_PREAMBLE_LSB = 0x21"
definition REG_FRF_MSB :: int where "REG_FRF_MSB = 0x06"
definition REG_FRF_MID :: int where "REG_FRF_MID = 0x07"
definition REG_FRF_LSB :: int where "REG_FRF_LSB = 0x08"
definition REG_FEI_LSB :: int where "REG_FEI_LSB = 0x1E"
definition REG_FEI_MSB :: int where "REG_FEI_MSB = 0x1D"
definition REG_MODEM_CONFIG :: int where "REG_MODEM_CONFIG = 0x26"
definition REG_PAYLOAD_LENGTH :: int where "REG_PAYLOAD_LENGTH = 0x22"
definition REG_FIFO_POINTER :: int where "REG_FIFO_POINTER = 0x0D"
definition REG_FIFO_BASE_ADDR :: int where "REG_FIFO_BASE_ADDR = 0x80"
definition REG_OPERATING_MODE :: int where "REG_OPERATING_MODE = 0x01"
definition REG_VERSION :: int where "REG_VERSION = 0x42"
definition REG_PREAMBLE_DETECT :: int where "REG_PREAMBLE_DETECT = 0x1F"
definition REG_TIMER1_COEF :: int where "REG_TIMER1_COEF = 0x39"
definition REG_NODE_ADDR :: int where "REG_NODE_ADDR = 0x33"
definition REG_IMAGE_CAL :: int where "REG_IMAGE_CAL = 0x3B"
definition REG_RSSI_CONFIG :: int where "REG_RSSI_CONFIG = 0x0E"
definition REG_RSSI_COLLISION :: int where "REG_RSSI_COLLISION = 0x0F"
definition REG_DIO_MAPPING_1 :: int where "REG_DIO_MAPPING_1 = 0x40"

text \<open>Class \<open>TTN\<close>: the session credentials, with its four read-only properties.\<close>

record TTN =
  dev_addr :: "byte list"
  net_key :: "byte list"
  app_key :: "byte list"
  region :: string

definition country :: "TTN \<Rightarrow> string" where
  "country t = region t"

definition device_address :: "TTN \<Rightarrow> byte list" where
  "device_address t = dev_addr t"

definition application_key :: "TTN \<Rightarrow> byte list" where
  "application_key t = app_key t"

definition network_key :: "TTN \<Rightarrow> byte list" where
  "network_key t = net_key t"

text \<open>
  What the driver does to the world, in the order it does it: the three pins, the
  SPI device and its transfers, and the delays of \<open>time.sleep\<close> (in seconds).
\<close>

datatype pin = IRQ | CS | RST

datatype event =
    Switch_to_input pin
  | Switch_to_output pin
  | Set_value pin bool
  | SPIDevice_open int int int
  | Time_sleep real
  | SPI_write "byte list"
  | SPI_readinto "byte list"

text \<open>
  What the world answers: the bytes the radio clocks out, the level of the DIO0 pin
  at each read of \<open>irq.value\<close>, each reading of \<open>time.monotonic()\<close>, and the
  entropy behind each call of \<open>randint\<close>, every one indexed by how many were
  consumed before. A clock reading is a float, given by the real number it stands for.
  \<open>float_sub a b\<close> is the interpreter's \<open>a - b\<close> on two floats: the exact
  difference rounded to the float format, which is binary64 under CPython and shorter
  under CircuitPython; it is a parameter, and \<open>binary64_sub\<close> below is the one of
  CPython. Comparing a float with the timeout does not round.
\<close>

record env =
  miso :: "nat \<Rightarrow> byte"
  irq_level :: "nat \<Rightarrow> bool"
  monotonic :: "nat \<Rightarrow> real"
  float_sub :: "real \<Rightarrow> real \<Rightarrow> real"
  entropy :: "nat \<Rightarrow> nat"

text \<open>
  A frequency table \<open>TTN_FREQS\<close> maps a channel number to its register triple
  (msb, mid, lsb). The five regional modules are not part of the sources; the tables
  are parameters. \<open>BUFFER\<close> is the two-byte SPI write buffer \<open>_BUFFER\<close>, which
  is never resized. \<open>heap\<close> holds the caller's bytearrays and those allocated
  by a call, by reference; the references below \<open>heap_size\<close> are in use.
\<close>

type_synonym freq_table = "int \<rightharpoonup> (byte \<times> byte \<times> byte)"

record state =
  BUFFER :: "byte \<times> byte"
  version :: int
  rfm_msb :: "int option"
  rfm_mid :: "int option"
  rfm_lsb :: "int option"
  sf :: "int option"
  bw :: "int option"
  modemcfg :: "int option"
  frequencies :: freq_table
  channel :: "int option"
  tx_random :: int
  frame_counter :: int
  ttn_config :: TTN
  heap :: "nat \<Rightarrow> byte list"
  heap_size :: nat
  log :: "event list"
  miso_reads :: nat
  irq_reads :: nat
  clock_reads :: nat
  rand_draws :: nat

subsection \<open>Actions\<close>

type_synonym 'a action = "state \<Rightarrow> ((error + 'a) \<times> state) option"

definition ret :: "'a \<Rightarrow> 'a action" where
  "ret x s = Some (Inr x, s)"

definition raise :: "error \<Rightarrow> 'a action" where
  "raise e s = Some (Inl e, s)"

definition and_then :: "'a action \<Rightarrow> ('a \<Rightarrow> 'b action) \<Rightarrow> 'b action" where
  "and_then m f s =
     (case m s of
        None \<Rightarrow> None
      | Some (Inl e, s') \<Rightarrow> Some (Inl e, s')
      | Some (Inr a, s') \<Rightarrow> f a s')"

definition modify :: "(state \<Rightarrow> state) \<Rightarrow> unit action" where
  "modify f s = Some (Inr (), f s)"

definition emit :: "event \<Rightarrow> unit action" where
  "emit e = modify (\<lambda>s. s\<lparr>log := log s @ [e]\<rparr>)"

text \<open>A \<open>for\<close> loop over a finite sequence; an exception in the body leaves it.\<close>

primrec for_each :: "'a list \<Rightarrow> ('a \<Rightarrow> unit action) \<Rightarrow> unit action" where
  "for_each [] body = ret ()"
| "for_each (x # xs) body = and_then (body x) (\<lambda>_. for_each xs body)"

text \<open>
  Storing the Python value \<open>v\<close> into a \<open>bytearray\<close>: \<open>None\<close> is refused with a
  \<open>TypeError\<close>, an integer outside \<open>range(256)\<close> with a \<open>ValueError\<close>.
\<close>

definition as_byte :: "int option \<Rightarrow> byte action" where
  "as_byte v =
     (case v of
        None \<Rightarrow> raise BadOperand
      | Some k \<Rightarrow> if 0 \<le> k \<and> k < 256 then ret (word_of_int k) else raise ValueError)"

text \<open>Reading \<open>xs[i]\<close> for an index \<open>i \<ge> 0\<close>.\<close>

definition getitem :: "'a list \<Rightarrow> nat \<Rightarrow> 'a action" where
  "getitem xs i = (if i < length xs then ret (xs ! i) else raise IndexError)"

text \<open>The environment's reads.\<close>

definition irq_value :: "env \<Rightarrow> state \<Rightarrow> bool \<times> state" where
  "irq_value w s = (irq_level w (irq_reads s), s\<lparr>irq_reads := Suc (irq_reads s)\<rparr>)"

definition time_monotonic :: "env \<Rightarrow> state \<Rightarrow> real \<times> state" where
  "time_monotonic w s = (monotonic w (clock_reads s), s\<lparr>clock_reads := Suc (clock_reads s)\<rparr>)"

text \<open>\<open>randint(a, b)\<close> for \<open>a \<le> b\<close>: an integer \<open>N\<close> with \<open>a \<le> N \<le> b\<close>.\<close>

definition randint :: "env \<Rightarrow> int \<Rightarrow> int \<Rightarrow> int action" where
  "randint w a b s =
     Some (Inr (a + int (entropy w (rand_draws s) mod nat (b - a + 1))),
           s\<lparr>rand_draws := Suc (rand_draws s)\<rparr>)"

subsection \<open>The register protocol\<close>

text \<open>
  \<open>_write_u8(address, val)\<close>: both bytes are stored into \<open>_BUFFER\<close>, then the
  two bytes are written in one transfer.
\<close>

definition write_u8 :: "int \<Rightarrow> int option \<Rightarrow> unit action" where
  "write_u8 address val =
     and_then (as_byte (Some (address OR 0x80))) (\<lambda>b0.
     and_then (modify (\<lambda>s. s\<lparr>BUFFER := (b0, snd (BUFFER s))\<rparr>)) (\<lambda>_.
     and_then (as_byte val) (\<lambda>b1.
     and_then (modify (\<lambda>s. s\<lparr>BUFFER := (fst (BUFFER s), b1)\<rparr>)) (\<lambda>_.
     (\<lambda>s. emit (SPI_write [fst (BUFFER s), snd (BUFFER s)]) s)))))"

text \<open>
  \<open>_read_into(address, buf, length)\<close>. The buffer argument is either \<open>_BUFFER\<close>
  itself (as \<open>_read_u8\<close> passes it) or a bytearray of the caller's; the action returns
  the buffer's contents after the transfer. \<open>end=length\<close> is read as a slice bound.
\<close>

datatype bufarg = Self_BUFFER | Caller_buf "byte list"

definition slice_bound :: "int \<Rightarrow> nat \<Rightarrow> nat" where
  "slice_bound k n = (if k < 0 then nat (int n + k) else min (nat k) n)"

definition read_into :: "env \<Rightarrow> int \<Rightarrow> bufarg \<Rightarrow> int option \<Rightarrow> byte list action" where
  "read_into w address buf len =
     and_then (as_byte (Some (address AND 0x7F))) (\<lambda>b0.
     and_then (modify (\<lambda>s. s\<lparr>BUFFER := (b0, snd (BUFFER s))\<rparr>)) (\<lambda>_.
     and_then (\<lambda>s. emit (SPI_write [fst (BUFFER s)]) s) (\<lambda>_. (\<lambda>s.
       let contents = (case buf of Self_BUFFER \<Rightarrow> [fst (BUFFER s), snd (BUFFER s)]
                                 | Caller_buf xs \<Rightarrow> xs);
           n = slice_bound (case len of None \<Rightarrow> int (length contents) | Some l \<Rightarrow> l)
                 (length contents);
           received = map (\<lambda>i. miso w (miso_reads s + i)) [0..<n];
           filled = received @ drop n contents;
           s1 = s\<lparr>miso_reads := miso_reads s + n, log := log s @ [SPI_readinto received]\<rparr>;
           s2 = (case buf of Self_BUFFER \<Rightarrow> s1\<lparr>BUFFER := (filled ! 0, filled ! 1)\<rparr>
                           | Caller_buf xs \<Rightarrow> s1)
       in Some (Inr filled, s2)))))"

definition read_u8 :: "env \<Rightarrow> int \<Rightarrow> int action" where
  "read_u8 w address =
     and_then (read_into w address Self_BUFFER (Some 1)) (\<lambda>_.
       (\<lambda>s. ret (uint (fst (BUFFER s))) s))"

subsection \<open>Data rate and channel\<close>

text \<open>The dictionary \<open>data_rates\<close> of \<open>set_datarate\<close>, in the order it is written.\<close>

definition data_rates :: "(string \<times> (int \<times> int \<times> int)) list" where
  "data_rates =
     [(''SF7BW125'', (0x74, 0x72, 0x04)),
      (''SF7BW250'', (0x74, 0x82, 0x04)),
      (''SF8BW125'', (0x84, 0x72, 0x04)),
      (''SF9BW125'', (0x94, 0x72, 0x04)),
      (''SF10BW125'', (0xA4, 0x72, 0x04)),
      (''SF11BW125'', (0xB4, 0x72, 0x0C)),
      (''SF12BW125'', (0xC4, 0x72, 0x0C))]"

definition set_datarate :: "string \<Rightarrow> unit action" where
  "set_datarate datarate =
     (case map_of data_rates datarate of
        None \<Rightarrow> raise UnsupportedDatarate
      | Some (a, b, c) \<Rightarrow> modify (\<lambda>s. s\<lparr>sf := Some a, bw := Some b, modemcfg := Some c\<rparr>))"

definition set_channel :: "int \<Rightarrow> unit action" where
  "set_channel ch s =
     (case frequencies s ch of
        None \<Rightarrow> raise LookupError s
      | Some (m, d, l) \<Rightarrow>
          modify (\<lambda>s. s\<lparr>rfm_msb := Some (uint m), rfm_mid := Some (uint d),
                         rfm_lsb := Some (uint l)\<rparr>) s)"

definition lift :: "(state \<Rightarrow> 'a \<times> state) \<Rightarrow> 'a action" where
  "lift f s = (case f s of (a, s') \<Rightarrow> Some (Inr a, s'))"

text \<open>One read of the frequency table, \<open>self._frequencies[i]\<close>.\<close>

definition table_entry :: "int \<Rightarrow> (byte \<times> byte \<times> byte) action" where
  "table_entry i s =
     (case frequencies s i of None \<Rightarrow> raise LookupError s | Some t \<Rightarrow> ret t s)"

subsection \<open>Construction\<close>

text \<open>
  The five modules a frequency plan is imported from. \<open>"US" in ttn_config.country\<close>
  is Python's substring test, \<^const>\<open>sublist\<close> on strings.
\<close>

datatype plan_module = ttn_usa | ttn_as | ttn_au | ttn_eu | ttn_cn

definition init ::
  "env \<Rightarrow> (plan_module \<Rightarrow> freq_table) \<Rightarrow> TTN \<Rightarrow> int option \<Rightarrow> unit action" where
  "init w TTN_FREQS ttn ch =
     and_then (emit (Switch_to_input IRQ)) (\<lambda>_.
     and_then (emit (Switch_to_output CS)) (\<lambda>_.
     and_then (emit (Switch_to_output RST)) (\<lambda>_.
     and_then (emit (SPIDevice_open 4000000 0 0)) (\<lambda>_.
     and_then (emit (Set_value RST False)) (\<lambda>_.
     and_then (emit (Time_sleep 0.0001)) (\<lambda>_.
     and_then (emit (Set_value RST True)) (\<lambda>_.
     and_then (emit (Time_sleep 0.005)) (\<lambda>_.
     and_then (read_u8 w REG_VERSION) (\<lambda>v.
     and_then (modify (\<lambda>s. s\<lparr>version := v\<rparr>)) (\<lambda>_.
     and_then (if v \<noteq> 18 then raise DeviceNotDetected else ret ()) (\<lambda>_.
     and_then (modify (\<lambda>s. s\<lparr>rfm_msb := None, rfm_mid := None, rfm_lsb := None\<rparr>)) (\<lambda>_.
     and_then (modify (\<lambda>s. s\<lparr>sf := None, bw := None, modemcfg := None\<rparr>)) (\<lambda>_.
     and_then (set_datarate ''SF7BW125'') (\<lambda>_.
     and_then
       (if sublist ''US'' (country ttn) then
          modify (\<lambda>s. s\<lparr>frequencies := TTN_FREQS ttn_usa\<rparr>)
        else if country ttn = ''AS'' then
          modify (\<lambda>s. s\<lparr>frequencies := TTN_FREQS ttn_as\<rparr>)
        else if country ttn = ''AU'' then
          modify (\<lambda>s. s\<lparr>frequencies := TTN_FREQS ttn_au\<rparr>)
        else if country ttn = ''EU'' then
          modify (\<lambda>s. s\<lparr>frequencies := TTN_FREQS ttn_eu\<rparr>)
        else if country ttn = ''CN'' then
          modify (\<lambda>s. s\<lparr>frequencies := TTN_FREQS ttn_cn\<rparr>)
        else raise UnsupportedRegion) (\<lambda>_.
     and_then (modify (\<lambda>s. s\<lparr>channel := ch\<rparr>)) (\<lambda>_.
     and_then (randint w 0 7) (\<lambda>r.
     and_then (modify (\<lambda>s. s\<lparr>tx_random := r\<rparr>)) (\<lambda>_.
     and_then (case ch of None \<Rightarrow> ret () | Some c \<Rightarrow> set_channel c) (\<lambda>_.
     and_then (modify (\<lambda>s. s\<lparr>frame_counter := 0\<rparr>)) (\<lambda>_.
     and_then
       (for_each
          [(REG_OPERATING_MODE, MODE_SLEEP),
           (REG_OPERATING_MODE, MODE_LORA),
           (REG_PA_CONFIG, 0xFF),
           (REG_PREAMBLE_DETECT, 0x25),
           (REG_PREAMBLE_MSB, 0x00),
           (REG_PREAMBLE_LSB, 0x08),
           (REG_MODEM_CONFIG, 0x0C),
           (REG_TIMER1_COEF, 0x34),
           (REG_NODE_ADDR, 0x27),
           (REG_IMAGE_CAL, 0x1D),
           (REG_RSSI_CONFIG, 0x80),
           (REG_RSSI_COLLISION, 0x00)]
          (\<lambda>pair. write_u8 (fst pair) (Some (snd pair)))) (\<lambda>_.
     modify (\<lambda>s. s\<lparr>ttn_config := ttn\<rparr>))))))))))))))))))))))"

subsection \<open>Sending a packet\<close>

text \<open>
  The poll of \<open>send_packet\<close>:
  \<^verbatim>\<open>while not timed_out and not self._irq.value:
      if (time.monotonic() - start) >= timeout:
          timed_out = True\<close>
\<close>

partial_function (option) wait_tx_done ::
  "env \<Rightarrow> real \<Rightarrow> real \<Rightarrow> bool \<Rightarrow> state \<Rightarrow> ((error + bool) \<times> state) option" where
  "wait_tx_done w start timeout timed_out s =
     (if timed_out then Some (Inr timed_out, s)
      else case irq_value w s of (v, s1) \<Rightarrow>
        if v then Some (Inr timed_out, s1)
        else case time_monotonic w s1 of (now, s2) \<Rightarrow>
          wait_tx_done w start timeout
            (if float_sub w now start \<ge> timeout then True else timed_out) s2)"

definition send_packet :: "env \<Rightarrow> byte list \<Rightarrow> int \<Rightarrow> real \<Rightarrow> unit action" where
  "send_packet w lora_packet packet_length timeout =
     and_then (write_u8 MODE_STDBY (Some 0x81)) (\<lambda>_.
     and_then (emit (Time_sleep 0.01)) (\<lambda>_.
     and_then (write_u8 0x40 (Some 0x40)) (\<lambda>_.
     and_then (\<lambda>s.
       (case channel s of
          None \<Rightarrow>
            and_then (randint w 0 7) (\<lambda>r.
            and_then (modify (\<lambda>s. s\<lparr>tx_random := r\<rparr>)) (\<lambda>_.
            and_then (\<lambda>s. table_entry (tx_random s) s) (\<lambda>e2.
            and_then (modify (\<lambda>s. s\<lparr>rfm_lsb := Some (uint (snd (snd e2)))\<rparr>)) (\<lambda>_.
            and_then (\<lambda>s. table_entry (tx_random s) s) (\<lambda>e1.
            and_then (modify (\<lambda>s. s\<lparr>rfm_mid := Some (uint (fst (snd e1)))\<rparr>)) (\<lambda>_.
            and_then (\<lambda>s. table_entry (tx_random s) s) (\<lambda>e0.
            modify (\<lambda>s. s\<lparr>rfm_msb := Some (uint (fst e0))\<rparr>))))))))
        | Some c \<Rightarrow> ret ()) s) (\<lambda>_.
     and_then (\<lambda>s.
       for_each
         [(REG_FRF_MSB, rfm_msb s),
          (REG_FRF_MID, rfm_mid s),
          (REG_FRF_LSB, rfm_lsb s),
          (REG_FEI_LSB, sf s),
          (REG_FEI_MSB, bw s),
          (REG_MODEM_CONFIG, modemcfg s),
          (REG_PAYLOAD_LENGTH, Some packet_length),
          (REG_FIFO_POINTER, Some REG_FIFO_BASE_ADDR)]
         (\<lambda>pair. write_u8 (fst pair) (snd pair)) s) (\<lambda>_.
     and_then
       (for_each [0..<nat packet_length] (\<lambda>packet_index.
          and_then (getitem lora_packet packet_index) (\<lambda>b.
          write_u8 0x00 (Some (uint b))))) (\<lambda>_.
     and_then (write_u8 REG_OPERATING_MODE (Some MODE_TX)) (\<lambda>_.
     and_then (lift (time_monotonic w)) (\<lambda>start.
     and_then (wait_tx_done w start timeout False) (\<lambda>timed_out.
     and_then (write_u8 REG_OPERATING_MODE (Some MODE_SLEEP)) (\<lambda>_.
     if timed_out then raise SendTimeout else ret ()))))))))))"

subsection \<open>Assembling and sending a frame\<close>

text \<open>
  Python's slices \<open>xs[i:j]\<close> and \<open>xs[i:j] = ys\<close> for bounds \<open>0 \<le> i \<le> j\<close>: the
  bounds are cut to the length of \<open>xs\<close>, and an assignment of another length
  resizes the bytearray.
\<close>

definition slice :: "'a list \<Rightarrow> nat \<Rightarrow> nat \<Rightarrow> 'a list" where
  "slice xs i j = take (j - i) (drop i xs)"

definition slice_assign :: "'a list \<Rightarrow> nat \<Rightarrow> nat \<Rightarrow> 'a list \<Rightarrow> 'a list" where
  "slice_assign xs i j ys =
     (let lo = min i (length xs); hi = max lo (min j (length xs))
      in take lo xs @ ys @ drop hi xs)"

text \<open>\<open>xs[i] = v\<close> on a bytearray, for an index \<open>i \<ge> 0\<close>.\<close>

definition setitem :: "byte list \<Rightarrow> nat \<Rightarrow> int option \<Rightarrow> byte list action" where
  "setitem xs i v =
     (if i < length xs then and_then (as_byte v) (\<lambda>b. ret (xs[i := b]))
      else raise IndexError)"

text \<open>\<open>bytearray(n)\<close>: a new object of \<open>n\<close> zero bytes, at a reference not in use.\<close>

definition new_bytearray :: "int \<Rightarrow> nat action" where
  "new_bytearray n s =
     (if n < 0 then raise ValueError s
      else Some (Inr (heap_size s),
                 s\<lparr>heap := (heap s)(heap_size s := replicate (nat n) 0),
                   heap_size := Suc (heap_size s)\<rparr>))"

text \<open>
  The module \<open>adafruit_tinylora_encryption\<close> (class \<open>AES\<close>) is not part of the
  sources; its two methods are parameters. \<open>aes_encrypt\<close> stands for
  \<open>AES(device_address, app_key, network_key, frame_counter).encrypt(data)\<close>, which
  overwrites the bytearray it is given and returns it; \<open>aes_calculate_mic\<close> for
  \<open>calculate_mic(lora_packet, lora_packet_length, mic)\<close> of the same object, which
  returns the \<open>mic\<close> bytearray filled in.
\<close>

record aes =
  aes_encrypt :: "byte list \<Rightarrow> byte list \<Rightarrow> byte list \<Rightarrow> int \<Rightarrow> byte list \<Rightarrow> byte list"
  aes_calculate_mic ::
    "byte list \<Rightarrow> byte list \<Rightarrow> byte list \<Rightarrow> int \<Rightarrow> byte list \<Rightarrow> int \<Rightarrow> byte list \<Rightarrow> byte list"

text \<open>
  \<open>send_data\<close> up to its last line: the packet \<open>lora_pkt\<close> and the length
  \<open>lora_pkt_len\<close> it hands to \<open>send_packet\<close>. \<open>data\<close> is the reference of the
  caller's buffer; \<open>enc_data\<close> is allocated by the call.
\<close>

definition send_data_frame :: "aes \<Rightarrow> nat \<Rightarrow> int \<Rightarrow> int \<Rightarrow> (byte list \<times> int) action" where
  "send_data_frame a data data_length fc =
     and_then (new_bytearray data_length) (\<lambda>enc_data.
     and_then (ret (replicate 64 0)) (\<lambda>lora_pkt.
     and_then (modify (\<lambda>s. s\<lparr>heap := (heap s)(enc_data :=
         slice_assign (heap s enc_data) 0 (nat data_length)
           (slice (heap s data) 0 (nat data_length)))\<rparr>)) (\<lambda>_.
     and_then (modify (\<lambda>s. s\<lparr>frame_counter := fc\<rparr>)) (\<lambda>_.
     and_then (modify (\<lambda>s. s\<lparr>heap := (heap s)(enc_data :=
         aes_encrypt a (device_address (ttn_config s)) (app_key (ttn_config s))
           (network_key (ttn_config s)) (frame_counter s) (heap s enc_data))\<rparr>)) (\<lambda>_.
     and_then (setitem lora_pkt 0 (Some REG_DIO_MAPPING_1)) (\<lambda>lora_pkt.
     and_then (\<lambda>s. getitem (device_address (ttn_config s)) 3 s) (\<lambda>d3.
     and_then (setitem lora_pkt 1 (Some (uint d3))) (\<lambda>lora_pkt.
     and_then (\<lambda>s. getitem (device_address (ttn_config s)) 2 s) (\<lambda>d2.
     and_then (setitem lora_pkt 2 (Some (uint d2))) (\<lambda>lora_pkt.
     and_then (\<lambda>s. getitem (device_address (ttn_config s)) 1 s) (\<lambda>d1.
     and_then (setitem lora_pkt 3 (Some (uint d1))) (\<lambda>lora_pkt.
     and_then (\<lambda>s. getitem (device_address (ttn_config s)) 0 s) (\<lambda>d0.
     and_then (setitem lora_pkt 4 (Some (uint d0))) (\<lambda>lora_pkt.
     and_then (setitem lora_pkt 5 (Some 0)) (\<lambda>lora_pkt.
     and_then (setitem lora_pkt 6 (Some (fc AND 0x00FF))) (\<lambda>lora_pkt.
     and_then (setitem lora_pkt 7 (Some (drop_bit 8 fc AND 0x00FF))) (\<lambda>lora_pkt.
     and_then (setitem lora_pkt 8 (Some 0x01)) (\<lambda>lora_pkt.
     and_then (ret 9) (\<lambda>lora_pkt_len.
     and_then (\<lambda>s. ret (slice_assign lora_pkt (nat lora_pkt_len)
         (nat (lora_pkt_len + data_length))
         (slice (heap s enc_data) 0 (nat data_length))) s) (\<lambda>lora_pkt.
     and_then (ret (lora_pkt_len + data_length)) (\<lambda>lora_pkt_len.
     and_then (\<lambda>s. ret (aes_calculate_mic a (device_address (ttn_config s))
         (app_key (ttn_config s)) (network_key (ttn_config s)) (frame_counter s)
         lora_pkt lora_pkt_len (replicate 4 0)) s) (\<lambda>mic.
     and_then (ret (slice_assign lora_pkt (nat lora_pkt_len) (nat (lora_pkt_len + 4))
         (slice mic 0 4))) (\<lambda>lora_pkt.
     and_then (ret (lora_pkt_len + 4)) (\<lambda>lora_pkt_len.
     ret (lora_pkt, lora_pkt_len)))))))))))))))))))))))))"

definition send_data :: "aes \<Rightarrow> env \<Rightarrow> nat \<Rightarrow> int \<Rightarrow> int \<Rightarrow> real \<Rightarrow> unit action" where
  "send_data a w data data_length fc timeout =
     and_then (send_data_frame a data data_length fc) (\<lambda>frame.
     send_packet w (fst frame) (snd frame) timeout)"

section \<open>The keystream cipher of the specification\<close>

text \<open>
  Modelled from the spec: the method \<open>encrypt\<close> of the keystream cipher (section 4.1);
  the module that implements it, \<open>adafruit_tinylora_encryption\<close>, is not part of the
  sources. For each 16-byte block index \<open>i\<close>, starting at 0, the input block \<open>A_i\<close>
  holds a fixed tag byte, the direction flag, the device address, the frame counter
  as a 32-bit value whose upper 16 bits are zero, and the block index; the block
  cipher under the application key turns it into the keystream block \<open>S_i\<close>, and the
  ciphertext block is the exclusive-or of the plaintext block and \<open>S_i\<close>, cut to the
  plaintext that remains. The spec names the fields of \<open>A_i\<close> and not their offsets:
  the bytes it does not name are zero here. The block cipher is the parameter
  \<open>E\<close> (key, then block).
\<close>

definition block_A :: "byte list \<Rightarrow> int \<Rightarrow> int \<Rightarrow> nat \<Rightarrow> byte list" where
  "block_A address fc direction i =
     [0x01, 0, 0, 0, 0, word_of_int direction] @ rev address @
     [word_of_int (fc AND 0xFF), word_of_int (drop_bit 8 fc AND 0xFF), 0, 0,
      0, word_of_int (int i)]"

fun encrypt_blocks ::
  "(byte list \<Rightarrow> byte list \<Rightarrow> byte list) \<Rightarrow> TTN \<Rightarrow> int \<Rightarrow> int \<Rightarrow> nat \<Rightarrow> byte list \<Rightarrow> byte list" where
  "encrypt_blocks E credentials fc direction i plaintext =
     (if plaintext = [] then []
      else map2 (XOR) (take 16 plaintext)
             (E (app_key credentials) (block_A (dev_addr credentials) fc direction i))
           @ encrypt_blocks E credentials fc direction (Suc i) (drop 16 plaintext))"

definition encrypt ::
  "(byte list \<Rightarrow> byte list \<Rightarrow> byte list) \<Rightarrow> byte list \<Rightarrow> TTN \<Rightarrow> int \<Rightarrow> int \<Rightarrow> byte list" where
  "encrypt E plaintext credentials fc direction =
     encrypt_blocks E credentials fc direction 0 plaintext"

section \<open>Sample inputs\<close>

text \<open>A radio that answers 18, raises DIO0 at the third read, and a clock of half
  seconds, whose differences need no rounding; credentials; and a driver object with
  nothing configured.\<close>

definition demo_env :: env where
  "demo_env = \<lparr>miso = (\<lambda>k. 18), irq_level = (\<lambda>k. 2 \<le> k),
                monotonic = (\<lambda>k. real k / 2), float_sub = (\<lambda>a b. a - b),
                entropy = (\<lambda>k. 11 + k)\<rparr>"

definition demo_ttn :: TTN where
  "demo_ttn = \<lparr>dev_addr = [0x26, 0x01, 0x1F, 0x88], net_key = replicate 16 0,
                app_key = replicate 16 0, region = ''EU''\<rparr>"

definition blank :: state where
  "blank = \<lparr>BUFFER = (0, 0), version = 0, rfm_msb = None, rfm_mid = None, rfm_lsb = None,
            sf = None, bw = None, modemcfg = None, frequencies = Map.empty,
            channel = None, tx_random = 0, frame_counter = 0, ttn_config = demo_ttn,
            heap = (\<lambda>r. []), heap_size = 0, log = [], miso_reads = 0, irq_reads = 0,
            clock_reads = 0, rand_draws = 0\<rparr>"

text \<open>A stand-in block cipher that returns 16 bytes for every key and block.\<close>

definition toy_cipher :: "byte list \<Rightarrow> byte list \<Rightarrow> byte list" where
  "toy_cipher key block = take 16 (map2 (\<lambda>k b. k + b + 1) key block @ replicate 16 0xA5)"

section \<open>The frame in closed form\<close>

text \<open>
  What \<open>send_data\<close> computes, written as a function of its inputs: the nine header
  bytes, and the packet after the encrypted payload \<open>enc\<close> and the integrity code
  have been stored into the 64-byte buffer. \<open>send_data_frame_char\<close> below proves that
  the code computes just this.
\<close>

definition frame_header :: "byte list \<Rightarrow> int \<Rightarrow> byte list" where
  "frame_header d fc =
     [0x40, d ! 3, d ! 2, d ! 1, d ! 0, 0, word_of_int (fc AND 0xFF),
      word_of_int (drop_bit 8 fc AND 0xFF), 0x01]"

definition frame_of :: "aes \<Rightarrow> TTN \<Rightarrow> int \<Rightarrow> byte list \<Rightarrow> nat \<Rightarrow> byte list" where
  "frame_of a t fc enc n =
     (let pkt0 = slice_assign (frame_header (dev_addr t) fc @ replicate 55 0) 9 (9 + n)
                   (slice enc 0 n);
          mic = aes_calculate_mic a (dev_addr t) (app_key t) (net_key t) fc pkt0 (9 + int n)
                   (replicate 4 0)
      in slice_assign pkt0 (9 + n) (9 + n + 4) (slice mic 0 4))"

text \<open>
  A stand-in for the \<open>AES\<close> class that keeps the length of what it encrypts and
  returns four bytes of integrity code; and a driver with the caller's two-byte payload
  \<open>01 02\<close> at reference 0.
\<close>

definition demo_aes :: aes where
  "demo_aes = \<lparr>aes_encrypt = (\<lambda>d ka kn f x. map (\<lambda>b. b XOR word_of_int f XOR 0x50) x),
               aes_calculate_mic = (\<lambda>d ka kn f p n m. [word_of_int n, p ! 0, p ! 8, 0x4D])\<rparr>"

definition demo_state :: state where
  "demo_state = blank\<lparr>heap := (\<lambda>r. if r = 0 then [0x01, 0x02] else []), heap_size := 1\<rparr>"

section \<open>Auxiliary notions for the proofs\<close>

text \<open>
  \<open>keeps R m\<close>: every run of the action \<open>m\<close> relates the state it starts from to the
  state it ends in by \<open>R\<close>, whether it returns or raises; \<open>raises_in E m\<close>: the
  exceptions of \<open>m\<close> are among \<open>E\<close>. The relations used: \<open>same_memory\<close> (the
  bytearrays and the frame counter are as they were), \<open>configuring\<close> (nothing was read
  from the clock or the DIO0 pin, the configuration is as it was, and among the events
  added there is no write to the operating-mode register, \<open>0x81\<close> on the wire),
  \<open>grows\<close> (events were only added), \<open>tuned\<close> (events were only added, and the
  channel drawn and the frequency registers are as they were).
\<close>

definition keeps :: "(state \<Rightarrow> state \<Rightarrow> bool) \<Rightarrow> 'a action \<Rightarrow> bool" where
  "keeps R m = (\<forall>s r s'. m s = Some (r, s') \<longrightarrow> R s s')"

definition raises_in :: "error set \<Rightarrow> 'a action \<Rightarrow> bool" where
  "raises_in E m = (\<forall>s e s'. m s = Some (Inl e, s') \<longrightarrow> e \<in> E)"

definition order_like :: "(state \<Rightarrow> state \<Rightarrow> bool) \<Rightarrow> bool" where
  "order_like R = ((\<forall>s. R s s) \<and> (\<forall>s t u. R s t \<longrightarrow> R t u \<longrightarrow> R s u))"

definition same_memory :: "state \<Rightarrow> state \<Rightarrow> bool" where
  "same_memory s s' =
     (heap s' = heap s \<and> heap_size s' = heap_size s \<and> frame_counter s' = frame_counter s \<and>
      ttn_config s' = ttn_config s)"

definition configuring :: "state \<Rightarrow> state \<Rightarrow> bool" where
  "configuring s s' =
     (irq_reads s' = irq_reads s \<and> clock_reads s' = clock_reads s \<and>
      frequencies s' = frequencies s \<and> channel s' = channel s \<and>
      sf s' = sf s \<and> bw s' = bw s \<and> modemcfg s' = modemcfg s \<and>
      (\<exists>evs. log s' = log s @ evs \<and> (\<forall>v. SPI_write [0x81, v] \<notin> set evs)))"

definition grows :: "state \<Rightarrow> state \<Rightarrow> bool" where
  "grows s s' = prefix (log s) (log s')"

definition tuned :: "state \<Rightarrow> state \<Rightarrow> bool" where
  "tuned s s' =
     (prefix (log s) (log s') \<and> tx_random s' = tx_random s \<and> rand_draws s' = rand_draws s \<and>
      rfm_msb s' = rfm_msb s \<and> rfm_mid s' = rfm_mid s \<and> rfm_lsb s' = rfm_lsb s)"

text \<open>
  The steps of \<open>send_packet\<close>, named: the choice of the channel, the eight register
  writes, the loop that fills the FIFO; \<open>send_packet_load\<close> is what it does between the
  write of the Standby mode and the write of the Transmit mode, \<open>send_packet_setup\<close>
  all it does before the write of the Transmit mode, and \<open>send_packet_transmit\<close> what
  it does from there on. \<open>send_packet_split\<close> proves that they compose to
  \<open>send_packet\<close>.
\<close>

definition choose_channel :: "env \<Rightarrow> unit action" where
  "choose_channel w =
     (\<lambda>s.
       (case channel s of
          None \<Rightarrow>
            and_then (randint w 0 7) (\<lambda>r.
            and_then (modify (\<lambda>s. s\<lparr>tx_random := r\<rparr>)) (\<lambda>_.
            and_then (\<lambda>s. table_entry (tx_random s) s) (\<lambda>e2.
            and_then (modify (\<lambda>s. s\<lparr>rfm_lsb := Some (uint (snd (snd e2)))\<rparr>)) (\<lambda>_.
            and_then (\<lambda>s. table_entry (tx_random s) s) (\<lambda>e1.
            and_then (modify (\<lambda>s. s\<lparr>rfm_mid := Some (uint (fst (snd e1)))\<rparr>)) (\<lambda>_.
            and_then (\<lambda>s. table_entry (tx_random s) s) (\<lambda>e0.
            modify (\<lambda>s. s\<lparr>rfm_msb := Some (uint (fst e0))\<rparr>))))))))
        | Some c \<Rightarrow> ret ()) s)"

definition load_registers :: "int \<Rightarrow> unit action" where
  "load_registers packet_length =
     (\<lambda>s.
       for_each
         [(REG_FRF_MSB, rfm_msb s),
          (REG_FRF_MID, rfm_mid s),
          (REG_FRF_LSB, rfm_lsb s),
          (REG_FEI_LSB, sf s),
          (REG_FEI_MSB, bw s),
          (REG_MODEM_CONFIG, modemcfg s),
          (REG_PAYLOAD_LENGTH, Some packet_length),
          (REG_FIFO_POINTER, Some REG_FIFO_BASE_ADDR)]
         (\<lambda>pair. write_u8 (fst pair) (snd pair)) s)"

definition fill_fifo :: "byte list \<Rightarrow> nat list \<Rightarrow> unit action" where
  "fill_fifo lora_packet indices =
     for_each indices (\<lambda>packet_index.
          and_then (getitem lora_packet packet_index) (\<lambda>b.
          write_u8 0x00 (Some (uint b))))"

definition send_packet_load :: "env \<Rightarrow> byte list \<Rightarrow> int \<Rightarrow> unit action" where
  "send_packet_load w lora_packet packet_length =
     and_then (emit (Time_sleep 0.01)) (\<lambda>_.
     and_then (write_u8 0x40 (Some 0x40)) (\<lambda>_.
     and_then (choose_channel w) (\<lambda>_.
     and_then (load_registers packet_length) (\<lambda>_.
     fill_fifo lora_packet [0..<nat packet_length]))))"

definition send_packet_setup :: "env \<Rightarrow> byte list \<Rightarrow> int \<Rightarrow> unit action" where
  "send_packet_setup w lora_packet packet_length =
     and_then (write_u8 MODE_STDBY (Some 0x81)) (\<lambda>_.
     send_packet_load w lora_packet packet_length)"

definition send_packet_transmit :: "env \<Rightarrow> real \<Rightarrow> unit action" where
  "send_packet_transmit w timeout =
     and_then (write_u8 REG_OPERATING_MODE (Some MODE_TX)) (\<lambda>_.
     and_then (lift (time_monotonic w)) (\<lambda>start.
     and_then (wait_tx_done w start timeout False) (\<lambda>timed_out.
     and_then (write_u8 REG_OPERATING_MODE (Some MODE_SLEEP)) (\<lambda>_.
     if timed_out then raise SendTimeout else ret ()))))"

text \<open>
  \<open>poll_outcome w start timeout s t s'\<close>: what a run of the poll from state \<open>s\<close>
  that ends in \<open>s'\<close> with the flag \<open>timed_out = t\<close> has seen. Only the two read
  counters changed; every read of DIO0 but the last was low and every clock reading but
  the last was short of the timeout; with \<open>t\<close> the last clock reading reached the
  timeout and DIO0 was low at its last read, without \<open>t\<close> DIO0 was high at its last
  read. A clock reading has reached the timeout when the float difference between it and
  \<open>start\<close> is at least \<open>timeout\<close>.
\<close>

definition poll_outcome :: "env \<Rightarrow> real \<Rightarrow> real \<Rightarrow> state \<Rightarrow> bool \<Rightarrow> state \<Rightarrow> bool" where
  "poll_outcome w start timeout s t s' =
     (s' = s\<lparr>irq_reads := irq_reads s', clock_reads := clock_reads s'\<rparr> \<and>
      irq_reads s < irq_reads s' \<and> clock_reads s \<le> clock_reads s' \<and>
      (\<forall>k. irq_reads s \<le> k \<and> k < irq_reads s' - 1 \<longrightarrow> \<not> irq_level w k) \<and>
      (\<forall>k. clock_reads s \<le> k \<and> k < clock_reads s' - 1 \<longrightarrow>
           float_sub w (monotonic w k) start < timeout) \<and>
      (if t then clock_reads s < clock_reads s' \<and>
                 timeout \<le> float_sub w (monotonic w (clock_reads s' - 1)) start \<and>
                 \<not> irq_level w (irq_reads s' - 1)
       else irq_level w (irq_reads s' - 1) \<and>
            (clock_reads s < clock_reads s' \<longrightarrow>
               float_sub w (monotonic w (clock_reads s' - 1)) start < timeout)))"

text \<open>
  \<open>quiet R\<close>: the relation \<open>R\<close> is reflexive and transitive and is kept by every
  assignment to \<open>_BUFFER\<close> and by every event other than a write to the operating-mode
  register; \<open>stable R\<close>: it is moreover kept by the assignments that the choice of the
  channel makes.
\<close>

definition quiet :: "(state \<Rightarrow> state \<Rightarrow> bool) \<Rightarrow> bool" where
  "quiet R =
     (order_like R \<and>
      (\<forall>s b. R s (s\<lparr>BUFFER := b\<rparr>)) \<and>
      (\<forall>s e. (\<forall>v. e \<noteq> SPI_write [0x81, v]) \<longrightarrow> R s (s\<lparr>log := log s @ [e]\<rparr>)))"

definition stable :: "(state \<Rightarrow> state \<Rightarrow> bool) \<Rightarrow> bool" where
  "stable R =
     (quiet R \<and>
      (\<forall>s k. R s (s\<lparr>rand_draws := k\<rparr>)) \<and>
      (\<forall>s k. R s (s\<lparr>tx_random := k\<rparr>)) \<and>
      (\<forall>s v. R s (s\<lparr>rfm_lsb := v\<rparr>)) \<and>
      (\<forall>s v. R s (s\<lparr>rfm_mid := v\<rparr>)) \<and>
      (\<forall>s v. R s (s\<lparr>rfm_msb := v\<rparr>)))"

text \<open>
  \<open>loadable w pkt n s\<close>: what the set-up of \<open>send_packet\<close> needs in order to
  complete. The length is in \<open>range(256)\<close> and no more than the length of the packet;
  the three data-rate attributes hold integers in \<open>range(256)\<close>; with a fixed channel
  the three frequency attributes do as well, and without one the frequency table has an
  entry at the index that \<open>randint(0, 7)\<close> draws.
\<close>

definition is_byte :: "int option \<Rightarrow> bool" where
  "is_byte v = (case v of None \<Rightarrow> False | Some k \<Rightarrow> 0 \<le> k \<and> k < 256)"

definition drawn :: "env \<Rightarrow> state \<Rightarrow> int" where
  "drawn w s = int (entropy w (rand_draws s) mod 8)"

definition loadable :: "env \<Rightarrow> byte list \<Rightarrow> int \<Rightarrow> state \<Rightarrow> bool" where
  "loadable w lora_packet packet_length s =
     (0 \<le> packet_length \<and> packet_length < 256 \<and> nat packet_length \<le> length lora_packet \<and>
      is_byte (sf s) \<and> is_byte (bw s) \<and> is_byte (modemcfg s) \<and>
      (case channel s of
         Some c \<Rightarrow> is_byte (rfm_msb s) \<and> is_byte (rfm_mid s) \<and> is_byte (rfm_lsb s)
       | None \<Rightarrow> frequencies s (drawn w s) \<noteq> None))"

text \<open>
  \<open>total m\<close>: the action \<open>m\<close> comes to an end from every state, by returning or by
  raising.
\<close>

definition total :: "'a action \<Rightarrow> bool" where
  "total m = (\<forall>s. m s \<noteq> None)"

text \<open>
  A frequency table with the channels 0 to 7, and a driver as construction leaves it
  with the fixed channel 0 of that table and the data rate \<open>SF7BW125\<close>.
\<close>

definition demo_plan :: freq_table where
  "demo_plan = (\<lambda>i. if 0 \<le> i \<and> i \<le> 7 then Some (0xD9, word_of_int (6 + i), 0x8B) else None)"

definition demo_radio :: state where
  "demo_radio = demo_state\<lparr>sf := Some 0x74, bw := Some 0x72, modemcfg := Some 0x04,
     frequencies := demo_plan, channel := Some 0, rfm_msb := Some 0xD9, rfm_mid := Some 0x06,
     rfm_lsb := Some 0x8B\<rparr>"





text \<open>
  A frequency table that provides the one channel 0, and the driver of \<open>demo_radio\<close>
  in multi-channel mode with that table.
\<close>

definition short_plan :: freq_table where
  "short_plan = (\<lambda>i. if i = 0 then Some (0xD9, 0x06, 0x8B) else None)"

definition roaming_radio :: state where
  "roaming_radio = demo_radio\<lparr>frequencies := short_plan, channel := None\<rparr>"


section \<open>Properties\<close>

lemmas constants =
  MODE_SLEEP_def MODE_LORA_def MODE_STDBY_def MODE_TX_def REG_PA_CONFIG_def
  REG_PREAMBLE_MSB_def REG_PREAMBLE_LSB_def REG_FRF_MSB_def REG_FRF_MID_def
  REG_FRF_LSB_def REG_FEI_LSB_def REG_FEI_MSB_def REG_MODEM_CONFIG_def
  REG_PAYLOAD_LENGTH_def REG_FIFO_POINTER_def REG_FIFO_BASE_ADDR_def
  REG_OPERATING_MODE_def REG_VERSION_def REG_PREAMBLE_DETECT_def REG_TIMER1_COEF_def
  REG_NODE_ADDR_def REG_IMAGE_CAL_def REG_RSSI_CONFIG_def REG_RSSI_COLLISION_def
  REG_DIO_MAPPING_1_def

subsection \<open>Actions and bytes\<close>

lemma and_then_ret [simp]: "and_then (ret x) f = f x"
  by (rule ext) (simp add: and_then_def ret_def)

lemma and_then_raise [simp]: "and_then (raise e) f = raise e"
  by (rule ext) (simp add: and_then_def raise_def)

lemma and_then_modify [simp]: "and_then (modify g) f s = f () (g s)"
  by (simp add: and_then_def modify_def)

lemma byte_of_or: "0 \<le> a \<Longrightarrow> a < 256 \<Longrightarrow> 0 \<le> a OR (128::int) \<and> a OR 128 < 256"
  using OR_upper [of a 8 128] by simp

lemma as_byte_Some: "0 \<le> k \<Longrightarrow> k < 256 \<Longrightarrow> as_byte (Some k) = ret (word_of_int k)"
  by (simp add: as_byte_def)

lemma uint_byte: "0 \<le> k \<Longrightarrow> k < 256 \<Longrightarrow> uint (word_of_int k :: byte) = k"
  by (simp add: uint_word_of_int)

lemma write_u8_byte:
  "0 \<le> a \<Longrightarrow> a < 256 \<Longrightarrow> 0 \<le> v \<Longrightarrow> v < 256 \<Longrightarrow>
   write_u8 a (Some v) s =
     Some (Inr (), s\<lparr>BUFFER := (word_of_int (a OR 0x80), word_of_int v),
                     log := log s @ [SPI_write [word_of_int (a OR 0x80), word_of_int v]]\<rparr>)"
  using byte_of_or [of a]
  by (simp add: write_u8_def as_byte_Some emit_def modify_def)

lemma write_u8_cases:
  "write_u8 a v s = Some (r, s') \<Longrightarrow>
     (r = Inl ValueError \<or> r = Inl BadOperand) \<and> log s' = log s
   \<or> r = Inr () \<and> (\<exists>k. v = Some k \<and> 0 \<le> k \<and> k < 256 \<and> 0 \<le> a OR 0x80 \<and> a OR 0x80 < 256 \<and>
         s' = s\<lparr>BUFFER := (word_of_int (a OR 0x80), word_of_int k),
                 log := log s @ [SPI_write [word_of_int (a OR 0x80), word_of_int k]]\<rparr>)"
  by (auto simp add: write_u8_def as_byte_def emit_def modify_def raise_def ret_def and_then_def
      split: option.splits if_splits)

lemma write_u8_result:
  assumes "write_u8 a v s = Some (r, s')"
  shows "(r = Inl ValueError \<or> r = Inl BadOperand) \<and> log s' = log s
   \<or> r = Inr () \<and> (\<exists>b0 b1. uint b0 = a OR 0x80 \<and> bit b0 7  \<and> v = Some (uint b1)
          \<and> log s' = log s @ [SPI_write [b0, b1]])"
proof -
  from write_u8_cases [OF assms] show ?thesis
  proof
    assume "(r = Inl ValueError \<or> r = Inl BadOperand) \<and> log s' = log s"
    then show ?thesis by blast
  next
    assume "r = Inr () \<and> (\<exists>k. v = Some k \<and> 0 \<le> k \<and> k < 256 \<and> 0 \<le> a OR 0x80 \<and> a OR 0x80 < 256 \<and>
         s' = s\<lparr>BUFFER := (word_of_int (a OR 0x80), word_of_int k),
                 log := log s @ [SPI_write [word_of_int (a OR 0x80), word_of_int k]]\<rparr>)"
    then obtain k where r: "r = Inr ()" and k: "v = Some k" "0 \<le> k" "k < 256"
      and a: "0 \<le> a OR 0x80" "a OR 0x80 < 256"
      and s': "s' = s\<lparr>BUFFER := (word_of_int (a OR 0x80), word_of_int k),
                 log := log s @ [SPI_write [word_of_int (a OR 0x80), word_of_int k]]\<rparr>"
      by blast
    have "uint (word_of_int (a OR 0x80) :: byte) = a OR 0x80"
      using a by (simp add: uint_byte)
    moreover have "bit (word_of_int (a OR 0x80) :: byte) 7"
      by (simp add: bit_word_of_int_iff bit_or_iff)
    moreover have "v = Some (uint (word_of_int k :: byte))"
      using k by (simp add: uint_byte)
    moreover have "log s' = log s @ [SPI_write [word_of_int (a OR 0x80), word_of_int k]]"
      using s' by simp
    ultimately show ?thesis using r by blast
  qed
qed

lemma read_into_sends:
  "\<exists>filled s'. read_into w a buf len s = Some (Inr filled, s') \<and>
     (\<exists>rx. log s' = log s @ [SPI_write [word_of_int (a AND 0x7F)], SPI_readinto rx])"
  by (cases buf) (simp_all add: read_into_def as_byte_Some emit_def modify_def Let_def and_then_def)

lemma read_address_bits:
  "uint (word_of_int (a AND 0x7F) :: byte) = a AND 0x7F \<and>
     \<not> bit (word_of_int (a AND 0x7F) :: byte) 7"
  by (simp add: uint_byte bit_word_of_int_iff bit_and_iff)

subsection \<open>The register protocol\<close>

text \<open>
  Claim C8. For every register address \<open>A\<close>, \<open>_read_into\<close> sends the one byte
  \<open>A & 0x7F\<close>, whose high bit is clear, and then reads; for every register address
  and data byte (both in \<open>range(256)\<close>), \<open>_write_u8\<close> sends the two bytes
  \<open>A | 0x80\<close>, whose high bit is set, and the whole data byte, in one transfer. Whatever
  the arguments, a transfer that \<open>_write_u8\<close> makes starts with a byte whose high bit
  is set.
\<close>

theorem register_protocol:
  "(\<exists>filled s'. read_into w A buf len s = Some (Inr filled, s') \<and>
      (\<exists>rx. log s' = log s @ [SPI_write [word_of_int (A AND 0x7F)], SPI_readinto rx])) \<and>
   uint (word_of_int (A AND 0x7F) :: byte) = A AND 0x7F \<and>
   \<not> bit (word_of_int (A AND 0x7F) :: byte) 7 \<and>
   (0 \<le> A \<and> A < 256 \<and> 0 \<le> v \<and> v < 256 \<longrightarrow>
      write_u8 A (Some v) s =
        Some (Inr (), s\<lparr>BUFFER := (word_of_int (A OR 0x80), word_of_int v),
                        log := log s @ [SPI_write [word_of_int (A OR 0x80), word_of_int v]]\<rparr>) \<and>
      uint (word_of_int (A OR 0x80) :: byte) = A OR 0x80 \<and>
      uint (word_of_int v :: byte) = v \<and>
      bit (word_of_int (A OR 0x80) :: byte) 7) \<and>
   (\<forall>r s'. write_u8 A val s = Some (r, s') \<longrightarrow>
      log s' = log s \<or> (\<exists>b0 b1. log s' = log s @ [SPI_write [b0, b1]] \<and> bit b0 7))"
proof -
  have wr: "write_u8 A (Some v) s =
        Some (Inr (), s\<lparr>BUFFER := (word_of_int (A OR 0x80), word_of_int v),
                        log := log s @ [SPI_write [word_of_int (A OR 0x80), word_of_int v]]\<rparr>) \<and>
      uint (word_of_int (A OR 0x80) :: byte) = A OR 0x80 \<and>
      uint (word_of_int v :: byte) = v \<and>
      bit (word_of_int (A OR 0x80) :: byte) 7"
    if "0 \<le> A" "A < 256" "0 \<le> v" "v < 256"
    using that byte_of_or [of A] write_u8_byte [of A v s]
    by (simp add: uint_byte bit_word_of_int_iff bit_or_iff)
  have any: "log s' = log s \<or> (\<exists>b0 b1. log s' = log s @ [SPI_write [b0, b1]] \<and> bit b0 7)"
    if "write_u8 A val s = Some (r, s')" for r s'
    using write_u8_result [OF that] by auto
  show ?thesis
    using read_into_sends [of w A buf len s] read_address_bits [of A] wr any by blast
qed

theorem register_protocol_witness:
  "read_into demo_env 0x42 Self_BUFFER (Some 1) blank =
     Some (Inr [18, 0], blank\<lparr>BUFFER := (18, 0), miso_reads := 1,
                              log := [SPI_write [0x42], SPI_readinto [18]]\<rparr>) \<and>
   write_u8 0x22 (Some 15) blank =
     Some (Inr (), blank\<lparr>BUFFER := (0xA2, 15), log := [SPI_write [0xA2, 15]]\<rparr>) \<and>
   bit (0xA2 :: byte) 7 \<and> \<not> bit (0x42 :: byte) 7"
  using register_protocol [where w = demo_env and A = "0x42" and buf = Self_BUFFER
      and len = "Some 1" and s = blank and v = 15 and val = "Some 15"]
    register_protocol [where w = demo_env and A = "0x22" and buf = Self_BUFFER
      and len = "Some 1" and s = blank and v = 15 and val = "Some 15"]
  by (simp add: read_into_def as_byte_Some emit_def modify_def Let_def and_then_def ret_def
      blank_def demo_env_def slice_bound_def)

subsection \<open>Data rates\<close>

text \<open>
  Claim C5. For a name that is not a key of the table \<open>data_rates\<close>,
  \<open>set_datarate\<close> raises \<open>KeyError("Invalid or Unsupported Datarate.")\<close> and the
  state is the one it started from: \<open>_sf\<close>, \<open>_bw\<close> and \<open>_modemcfg\<close> keep
  their values. For a name of the table, the three are set to the table's triple and
  nothing else changes.
\<close>

theorem set_datarate_lookup:
  "(datarate \<notin> fst ` set data_rates \<longrightarrow>
      set_datarate datarate s = Some (Inl UnsupportedDatarate, s)) \<and>
   ((datarate, (a, b, c)) \<in> set data_rates \<longrightarrow>
      set_datarate datarate s =
        Some (Inr (), s\<lparr>sf := Some a, bw := Some b, modemcfg := Some c\<rparr>))"
proof -
  have d: "distinct (map fst data_rates)"
    by (simp add: data_rates_def)
  have "map_of data_rates datarate = None" if "datarate \<notin> fst ` set data_rates"
    using that by (simp add: map_of_eq_None_iff)
  moreover have "map_of data_rates datarate = Some (a, b, c)"
    if "(datarate, (a, b, c)) \<in> set data_rates"
    using that d by (rule map_of_is_SomeI [rotated])
  ultimately show ?thesis
    by (auto simp add: set_datarate_def raise_def modify_def)
qed

theorem set_datarate_lookup_witness:
  "set_datarate ''SF99BW999'' (blank\<lparr>sf := Some 0x74, bw := Some 0x72, modemcfg := Some 0x04\<rparr>) =
     Some (Inl UnsupportedDatarate, blank\<lparr>sf := Some 0x74, bw := Some 0x72, modemcfg := Some 0x04\<rparr>) \<and>
   set_datarate ''SF12BW125'' (blank\<lparr>sf := Some 0x74, bw := Some 0x72, modemcfg := Some 0x04\<rparr>) =
     Some (Inr (), blank\<lparr>sf := Some 0xC4, bw := Some 0x72, modemcfg := Some 0x0C\<rparr>)"
  using set_datarate_lookup [where datarate = "''SF99BW999''" and s = "blank\<lparr>sf := Some 0x74, bw := Some 0x72, modemcfg := Some 0x04\<rparr>"]
    set_datarate_lookup [where datarate = "''SF12BW125''" and a = "0xC4" and b = "0x72" and c = "0x0C"
      and s = "blank\<lparr>sf := Some 0x74, bw := Some 0x72, modemcfg := Some 0x04\<rparr>"]
  by (simp add: data_rates_def)

subsection \<open>The keystream cipher\<close>

declare encrypt_blocks.simps [simp del]

lemma map2_xor_twice:
  "length P \<le> length S \<Longrightarrow> map2 (XOR) (map2 (XOR) P S) S = (P :: byte list)"
proof (induction P arbitrary: S)
  case Nil
  then show ?case by simp
next
  case (Cons p P)
  then obtain k S' where "S = k # S'" by (cases S) auto
  with Cons show ?case by (simp add: xor.assoc)
qed

lemma encrypt_blocks_Nil: "encrypt_blocks E c fc d i [] = []"
  by (simp add: encrypt_blocks.simps)

lemma encrypt_blocks_step:
  "P \<noteq> [] \<Longrightarrow> encrypt_blocks E c fc d i P =
     map2 (XOR) (take 16 P) (E (app_key c) (block_A (dev_addr c) fc d i))
     @ encrypt_blocks E c fc d (Suc i) (drop 16 P)"
  by (subst encrypt_blocks.simps) simp

lemma length_encrypt_blocks:
  assumes E: "\<And>k b. length (E k b) = 16"
  shows "length (encrypt_blocks E c fc d i P) = length P"
proof (induction "length P" arbitrary: P i rule: less_induct)
  case less
  show ?case
  proof (cases "P = []")
    case True
    then show ?thesis by (simp add: encrypt_blocks_Nil)
  next
    case False
    then have "length (drop 16 P) < length P" by simp
    then have "length (encrypt_blocks E c fc d (Suc i) (drop 16 P)) = length (drop 16 P)"
      by (rule less)
    then show ?thesis
      using False by (simp add: encrypt_blocks_step E)
  qed
qed

lemma encrypt_blocks_twice:
  assumes E: "\<And>k b. length (E k b) = 16"
  shows "encrypt_blocks E c fc d i (encrypt_blocks E c fc d i P) = P"
proof (induction "length P" arbitrary: P i rule: less_induct)
  case less
  show ?case
  proof (cases "P = []")
    case True
    then show ?thesis by (simp add: encrypt_blocks_Nil)
  next
    case False
    define S where "S = E (app_key c) (block_A (dev_addr c) fc d i)"
    define C1 where "C1 = map2 (XOR) (take 16 P) S"
    define R where "R = encrypt_blocks E c fc d (Suc i) (drop 16 P)"
    have S: "length S = 16" using E by (simp add: S_def)
    have lenC1: "length C1 = min (length P) 16" by (simp add: C1_def S)
    have unfold: "encrypt_blocks E c fc d i P = C1 @ R"
      using False by (simp add: encrypt_blocks_step C1_def R_def S_def)
    have ne: "C1 @ R \<noteq> []" using False lenC1 by (cases P) auto
    have lenR: "length R = length P - 16"
      using length_encrypt_blocks [OF E, where i = "Suc i" and P = "drop 16 P"] by (simp add: R_def)
    have tk: "take 16 (C1 @ R) = C1"
      using lenC1 lenR by (cases "length P \<le> 16") (simp_all add: min_def)
    have dr: "drop 16 (C1 @ R) = R"
      using lenC1 lenR by (cases "length P \<le> 16") (simp_all add: min_def)
    have "length (drop 16 P) < length P" using False by simp
    then have IH: "encrypt_blocks E c fc d (Suc i) R = drop 16 P"
      unfolding R_def by (rule less)
    have restore: "map2 (XOR) C1 S = take 16 P"
      unfolding C1_def by (rule map2_xor_twice) (simp add: S)
    have "encrypt_blocks E c fc d i (C1 @ R) =
        map2 (XOR) (take 16 (C1 @ R)) S @ encrypt_blocks E c fc d (Suc i) (drop 16 (C1 @ R))"
      unfolding S_def by (rule encrypt_blocks_step [OF ne])
    also have "\<dots> = take 16 P @ drop 16 P"
      by (simp only: tk dr IH restore)
    finally show ?thesis by (simp add: unfold)
  qed
qed

text \<open>
  Claim C2. For a block cipher that returns 16-byte blocks, every plaintext \<open>P\<close> (any
  bytes, any length, the empty one included), all credentials \<open>C\<close>, every frame
  counter \<open>F\<close> and direction: encrypting twice gives \<open>P\<close> back, and the
  ciphertext is as long as the plaintext.
\<close>

theorem keystream_involution:
  assumes "\<And>key block. length (E key block) = 16"
  shows "encrypt E (encrypt E P C F d) C F d = P \<and> length (encrypt E P C F d) = length P"
  using encrypt_blocks_twice [OF assms] length_encrypt_blocks [OF assms]
  by (simp add: encrypt_def)

lemma length_toy_cipher: "length (toy_cipher key block) = 16"
  by (simp add: toy_cipher_def)

theorem keystream_involution_witness:
  "encrypt toy_cipher [0x41, 0x42] (demo_ttn\<lparr>app_key := [7, 9, 11]\<rparr>) 5 0 = [0x48, 0x48] \<and>
   encrypt toy_cipher [0x48, 0x48] (demo_ttn\<lparr>app_key := [7, 9, 11]\<rparr>) 5 0 = [0x41, 0x42]"
  using keystream_involution [of toy_cipher "[0x41, 0x42]" "demo_ttn\<lparr>app_key := [7, 9, 11]\<rparr>" 5 0, OF length_toy_cipher]
  by (simp add: encrypt_def encrypt_blocks_step encrypt_blocks_Nil toy_cipher_def block_A_def demo_ttn_def)

subsection \<open>Assembling the frame\<close>

lemma as_byte_uint: "as_byte (Some (uint (b :: byte))) = ret b"
  using uint_lt2p [of b] by (simp add: as_byte_def)

lemma as_byte_and: "as_byte (Some (k AND 0xFF)) = ret (word_of_int (k AND 0xFF))"
  by (simp add: as_byte_def)

lemma slice_all: "length xs \<le> n \<Longrightarrow> slice xs 0 n = xs"
  by (simp add: slice_def)

lemma slice_assign_all: "length xs \<le> n \<Longrightarrow> slice_assign xs 0 n ys = ys"
  by (simp add: slice_assign_def)

lemma header_updates:
  "(replicate 64 (0::byte))[0 := a0, Suc 0 := a1, 2 := a2, 3 := a3, 4 := a4, 5 := a5, 6 := a6,
      7 := a7, 8 := a8] = [a0, a1, a2, a3, a4, a5, a6, a7, a8] @ replicate 55 0"
  by (simp add: numeral_nat replicate_append_same [symmetric] del: replicate_append_same)

lemma send_data_frame_char:
  assumes r: "data < heap_size s"
  shows "send_data_frame a data data_length fc s =
    (if data_length < 0 then Some (Inl ValueError, s)
     else let t = ttn_config s; n = nat data_length;
         enc = aes_encrypt a (dev_addr t) (app_key t) (net_key t) fc (take n (heap s data));
         s' = s\<lparr>heap := (heap s)(heap_size s := enc), heap_size := Suc (heap_size s),
                frame_counter := fc\<rparr>
       in if length (dev_addr t) < 4 then Some (Inl IndexError, s')
          else Some (Inr (frame_of a t fc enc n, 9 + data_length + 4), s'))"
proof (cases "data_length < 0")
  case True
  then show ?thesis
    by (simp add: send_data_frame_def new_bytearray_def and_then_def raise_def)
next
  case nonneg: False
  show ?thesis
  proof (cases "length (dev_addr (ttn_config s)) < 4")
    case True
    then show ?thesis
      using r nonneg
      by (simp add: send_data_frame_def new_bytearray_def and_then_def modify_def ret_def
          raise_def setitem_def getitem_def as_byte_Some slice_all slice_assign_all Let_def
          device_address_def network_key_def REG_DIO_MAPPING_1_def slice_def)
  next
    case False
    then have ne: "dev_addr (ttn_config s) \<noteq> []" by auto
    show ?thesis
      using r nonneg False ne
      by (simp add: send_data_frame_def new_bytearray_def and_then_def modify_def ret_def
          setitem_def getitem_def as_byte_uint as_byte_and slice_assign_all Let_def
          device_address_def network_key_def REG_DIO_MAPPING_1_def as_byte_Some
          frame_header_def frame_of_def header_updates nat_add_distrib slice_def)
  qed
qed


lemma nth_slice_assign_before:
  "k < i \<Longrightarrow> k < length xs \<Longrightarrow> slice_assign xs i j ys ! k = xs ! k"
  by (simp add: slice_assign_def Let_def nth_append)

lemma length_slice_assign_ge:
  "min i (length xs) \<le> length (slice_assign xs i j ys)"
  by (simp add: slice_assign_def Let_def)

lemma slice_assign_append:
  "length pre = i \<Longrightarrow> i \<le> j \<Longrightarrow>
     slice_assign (pre @ post) i j ys = pre @ ys @ drop (j - i) post"
  by (simp add: slice_assign_def Let_def max_def min_def)

lemma length_frame_header: "length (frame_header d fc) = 9"
  by (simp add: frame_header_def)

lemma frame_of_port:
  "frame_of a t fc enc n ! 8 = 1 \<and> 9 \<le> length (frame_of a t fc enc n)"
proof -
  define pkt0 where "pkt0 = slice_assign (frame_header (dev_addr t) fc @ replicate 55 0) 9 (9 + n)
                   (slice enc 0 n)"
  have l0: "9 \<le> length pkt0"
    using length_slice_assign_ge [of 9 "frame_header (dev_addr t) fc @ replicate 55 0" "9 + n" "slice enc 0 n"]
    by (simp add: pkt0_def length_frame_header)
  have p0: "pkt0 ! 8 = 1"
    unfolding pkt0_def
    by (subst nth_slice_assign_before) (simp_all add: frame_header_def)
  have f: "frame_of a t fc enc n = slice_assign pkt0 (9 + n) (9 + n + 4)
      (slice (aes_calculate_mic a (dev_addr t) (app_key t) (net_key t) fc pkt0 (9 + int n)
                   (replicate 4 0)) 0 4)"
    by (simp add: frame_of_def pkt0_def Let_def)
  have "frame_of a t fc enc n ! 8 = pkt0 ! 8"
    unfolding f using l0 by (subst nth_slice_assign_before) simp_all
  moreover have "9 \<le> length (frame_of a t fc enc n)"
  proof -
    have "min (9 + n) (length pkt0) \<le> length (frame_of a t fc enc n)"
      unfolding f by (rule length_slice_assign_ge)
    moreover have "9 \<le> min (9 + n) (length pkt0)"
      using l0 by simp
    ultimately show ?thesis by (rule order_trans [rotated])
  qed
  ultimately show ?thesis using p0 by simp
qed

lemma frame_of_layout:
  assumes e: "length enc = n"
    and m: "length (aes_calculate_mic a (dev_addr t) (app_key t) (net_key t) fc
              (frame_header (dev_addr t) fc @ enc @ replicate (55 - n) 0) (9 + int n)
              (replicate 4 0)) = 4"
  shows "frame_of a t fc enc n =
     frame_header (dev_addr t) fc @ enc @
     aes_calculate_mic a (dev_addr t) (app_key t) (net_key t) fc
       (frame_header (dev_addr t) fc @ enc @ replicate (55 - n) 0) (9 + int n) (replicate 4 0)
     @ replicate (51 - n) 0"
proof -
  have p0: "slice_assign (frame_header (dev_addr t) fc @ replicate 55 0) 9 (9 + n) (slice enc 0 n)
      = frame_header (dev_addr t) fc @ enc @ replicate (55 - n) 0"
    using e by (subst slice_assign_append) (simp_all add: length_frame_header slice_all)
  have "slice_assign ((frame_header (dev_addr t) fc @ enc) @ replicate (55 - n) 0) (9 + n)
      (9 + n + 4) ys = (frame_header (dev_addr t) fc @ enc) @ ys @ drop (9 + n + 4 - (9 + n)) (replicate (55 - n) 0)" for ys
    using e by (subst slice_assign_append) (simp_all add: length_frame_header)
  then show ?thesis
    using m by (simp add: frame_of_def p0 Let_def slice_all)
qed

lemma counter_bytes:
  "uint (word_of_int (F AND 0xFF) :: byte) = F AND 0xFF \<and>
   uint (word_of_int (drop_bit 8 F AND 0xFF) :: byte) = drop_bit 8 F AND 0xFF"
  by (simp add: uint_byte)

lemma counter_16bit:
  "0 \<le> F \<Longrightarrow> F < 65536 \<Longrightarrow> (F AND 0xFF) + 256 * (drop_bit 8 F AND 0xFF) = (F::int)"
proof -
  assume F: "0 \<le> F" "F < 65536"
  have m: "(255::int) = mask 8" by (simp add: mask_eq_exp_minus_1)
  have lo: "F AND 0xFF = F mod 256"
    unfolding m by (simp add: take_bit_eq_mask [symmetric] take_bit_eq_mod)
  have hi: "drop_bit 8 F AND 0xFF = (F div 256) mod 256"
    unfolding m by (simp add: take_bit_eq_mask [symmetric] take_bit_eq_mod drop_bit_eq_div)
  have "F div 256 < 256" "0 \<le> F div 256" using F by auto
  then have "(F div 256) mod 256 = F div 256" by simp
  then show ?thesis using lo hi by simp
qed

text \<open>
  Claim C1. For every payload of \<open>N\<close> bytes and every frame counter \<open>F\<close>, the
  packet and length that \<open>send_data\<close> hands to \<open>send_packet\<close> hold a frame of
  \<open>9 + N + 4\<close> bytes: byte 0 is \<open>0x40\<close>; bytes 1 to 4 are the device address from
  its index 3 down to its index 0 (the credentials hold it most significant byte
  first, so the frame carries it least significant byte first); byte 5 is 0; byte 6 is
  \<open>F & 0xFF\<close> and byte 7 is \<open>(F >> 8) & 0xFF\<close>, which together are \<open>F\<close> when \<open>F\<close> has
  16 bits; byte 8 is the port; then come the \<open>N\<close> bytes of the encrypted payload and
  the four bytes of the integrity code, computed over the header and the encrypted
  payload. The \<open>AES\<close> class is a parameter, assumed to keep the payload's length and
  to return a four-byte code; the device address has four bytes and \<open>data_length\<close> is
  the length of the payload.
\<close>

theorem frame_layout:
  assumes d: "length (dev_addr (ttn_config s)) = 4"
    and r: "data < heap_size s"
    and n: "data_length = int (length (heap s data))"
    and e: "\<And>d ka kn f x. length (aes_encrypt a d ka kn f x) = length x"
    and m: "\<And>d ka kn f p k b. length (aes_calculate_mic a d ka kn f p k b) = 4"
  shows "\<exists>pkt s'.
     send_data_frame a data data_length F s = Some (Inr (pkt, 9 + data_length + 4), s') \<and>
     (let d = dev_addr (ttn_config s); N = length (heap s data);
          enc = aes_encrypt a d (app_key (ttn_config s)) (net_key (ttn_config s)) F
                  (heap s data);
          header = [0x40, d ! 3, d ! 2, d ! 1, d ! 0, 0, word_of_int (F AND 0xFF),
                    word_of_int (drop_bit 8 F AND 0xFF), 0x01];
          mic = aes_calculate_mic a d (app_key (ttn_config s)) (net_key (ttn_config s)) F
                  (header @ enc @ replicate (55 - N) 0) (9 + int N) (replicate 4 0);
          frame = take (nat (9 + data_length + 4)) pkt
      in frame = header @ enc @ mic \<and> length frame = 9 + N + 4 \<and> length enc = N \<and>
         length mic = 4) \<and>
     uint (word_of_int (F AND 0xFF) :: byte) = F AND 0xFF \<and>
     uint (word_of_int (drop_bit 8 F AND 0xFF) :: byte) = drop_bit 8 F AND 0xFF \<and>
     (0 \<le> F \<and> F < 65536 \<longrightarrow> (F AND 0xFF) + 256 * (drop_bit 8 F AND 0xFF) = F)"
proof -
  define t where "t = ttn_config s"
  define N where "N = length (heap s data)"
  define enc where "enc = aes_encrypt a (dev_addr t) (app_key t) (net_key t) F (heap s data)"
  have lenc: "length enc = N" by (simp add: enc_def e N_def)
  have lay: "frame_of a t F enc N =
     frame_header (dev_addr t) F @ enc @
     aes_calculate_mic a (dev_addr t) (app_key t) (net_key t) F
       (frame_header (dev_addr t) F @ enc @ replicate (55 - N) 0) (9 + int N) (replicate 4 0)
     @ replicate (51 - N) 0"
    using lenc m by (rule frame_of_layout)
  have run: "send_data_frame a data data_length F s =
      Some (Inr (frame_of a t F enc N, 9 + data_length + 4),
        s\<lparr>heap := (heap s)(heap_size s := enc), heap_size := Suc (heap_size s),
           frame_counter := F\<rparr>)"
    using d by (simp add: send_data_frame_char [OF r] n t_def enc_def N_def Let_def)
  have tk: "take (nat (9 + data_length + 4)) (frame_of a t F enc N) =
     frame_header (dev_addr t) F @ enc @
     aes_calculate_mic a (dev_addr t) (app_key t) (net_key t) F
       (frame_header (dev_addr t) F @ enc @ replicate (55 - N) 0) (9 + int N) (replicate 4 0)"
    by (simp add: lay n N_def [symmetric] lenc m length_frame_header nat_add_distrib)
  have len: "length (take (nat (9 + data_length + 4)) (frame_of a t F enc N)) = 9 + N + 4"
    unfolding tk by (simp add: lenc m length_frame_header)
  have hdr: "[0x40, dev_addr t ! 3, dev_addr t ! 2, dev_addr t ! 1, dev_addr t ! 0, 0,
      word_of_int (F AND 0xFF), word_of_int (drop_bit 8 F AND 0xFF), 0x01] =
      frame_header (dev_addr t) F"
    by (simp add: frame_header_def)
  have cb: "uint (word_of_int (F AND 0xFF) :: byte) = F AND 0xFF"
    "uint (word_of_int (drop_bit 8 F AND 0xFF) :: byte) = drop_bit 8 F AND 0xFF"
    using counter_bytes [of F] by simp_all
  have c16: "0 \<le> F \<and> F < 65536 \<longrightarrow> (F AND 0xFF) + 256 * (drop_bit 8 F AND 0xFF) = F"
    using counter_16bit [of F] by blast
  show ?thesis
    unfolding Let_def t_def [symmetric] N_def [symmetric] enc_def [symmetric] hdr
    by (intro exI conjI) (rule run tk len lenc m cb c16)+
qed


theorem frame_layout_witness:
  "\<exists>pkt s'. send_data_frame demo_aes 0 2 5 demo_state = Some (Inr (pkt, 15), s') \<and>
     take 15 pkt = [0x40, 0x88, 0x1F, 0x01, 0x26, 0x00, 0x05, 0x00, 0x01,
                    0x54, 0x57, 0x0B, 0x40, 0x01, 0x4D]"
  using frame_layout [where s = demo_state and data = 0 and data_length = 2 and a = demo_aes
      and F = 5]
  by (simp add: demo_state_def demo_aes_def blank_def demo_ttn_def Let_def) blast

text \<open>
  Claim C10. Whatever the payload, the counter and the \<open>AES\<close> class: when
  \<open>send_data\<close> has assembled a packet, its byte at offset 8 is 1, inside the length
  given to \<open>send_packet\<close>. \<open>send_data\<close> has no port parameter; the byte is the
  literal \<open>0x01\<close>.
\<close>

theorem port_byte:
  assumes "data < heap_size s"
    and "send_data_frame a data data_length F s = Some (Inr (pkt, len), s')"
  shows "8 < len \<and> 8 < length pkt \<and> pkt ! 8 = 0x01 \<and>
     send_data a w data data_length F timeout s = send_packet w pkt len timeout s'"
proof -
  from assms have nn: "\<not> data_length < 0"
    by (auto simp add: send_data_frame_char)
  define enc where "enc = aes_encrypt a (dev_addr (ttn_config s)) (app_key (ttn_config s))
           (net_key (ttn_config s)) F (take (nat data_length) (heap s data))"
  from assms nn have
    pkt: "pkt = frame_of a (ttn_config s) F enc (nat data_length)"
    and len: "len = 9 + data_length + 4"
    by (auto simp add: send_data_frame_char Let_def enc_def split: if_splits)
  have "send_data a w data data_length F timeout s = send_packet w pkt len timeout s'"
    using assms(2) by (simp add: send_data_def and_then_def)
  then show ?thesis
    using frame_of_port [of a "ttn_config s" F enc "nat data_length"] nn
    by (simp add: pkt len)
qed

theorem port_byte_witness:
  "\<exists>pkt s'. send_data_frame demo_aes 0 2 5 demo_state = Some (Inr (pkt, 15), s') \<and>
     pkt ! 8 = 0x01 \<and> 8 < length pkt"
proof -
  obtain pkt s' where run: "send_data_frame demo_aes 0 2 5 demo_state = Some (Inr (pkt, 15), s')"
    by (simp add: send_data_frame_char demo_state_def blank_def demo_ttn_def Let_def)
  have "0 < heap_size demo_state"
    by (simp add: demo_state_def)
  from port_byte [OF this run] have "pkt ! 8 = 0x01 \<and> 8 < length pkt"
    by simp
  with run show ?thesis by blast
qed

subsection \<open>Frame rules for actions\<close>

lemma and_then_assoc: "and_then (and_then m f) g = and_then m (\<lambda>x. and_then (f x) g)"
  by (rule ext) (simp add: and_then_def split: option.splits sum.splits prod.splits)

lemma send_packet_split:
  "send_packet w lora_packet packet_length timeout =
     and_then (send_packet_setup w lora_packet packet_length) (\<lambda>_. send_packet_transmit w timeout)"
  by (simp only: send_packet_def send_packet_setup_def send_packet_load_def choose_channel_def
      load_registers_def fill_fifo_def send_packet_transmit_def and_then_assoc)

lemma and_then_cases:
  assumes "and_then m f s = Some (r, s')"
  obtains (raised) e where "m s = Some (Inl e, s')" "r = Inl e"
    | (went_on) a s1 where "m s = Some (Inr a, s1)" "f a s1 = Some (r, s')"
  using assms by (auto simp add: and_then_def split: option.splits sum.splits prod.splits)

lemma keepsI: "(\<And>s r s'. m s = Some (r, s') \<Longrightarrow> R s s') \<Longrightarrow> keeps R m"
  by (simp add: keeps_def)

lemma keepsD: "keeps R m \<Longrightarrow> m s = Some (r, s') \<Longrightarrow> R s s'"
  by (simp add: keeps_def)

lemma keeps_ret: "order_like R \<Longrightarrow> keeps R (ret x)"
  by (simp add: keeps_def ret_def order_like_def)

lemma keeps_raise: "order_like R \<Longrightarrow> keeps R (raise e)"
  by (simp add: keeps_def raise_def order_like_def)

lemma keeps_modify: "(\<And>s. R s (f s)) \<Longrightarrow> keeps R (modify f)"
  by (auto simp add: keeps_def modify_def)

lemma keeps_and_then:
  assumes R: "order_like R" and m: "keeps R m" and f: "\<And>a. keeps R (f a)"
  shows "keeps R (and_then m f)"
proof (rule keepsI)
  fix s r s'
  assume "and_then m f s = Some (r, s')"
  then show "R s s'"
  proof (cases rule: and_then_cases)
    case (raised e)
    then show ?thesis using m by (auto dest: keepsD)
  next
    case (went_on a s1)
    then have "R s s1" "R s1 s'" using m f by (auto dest: keepsD)
    then show ?thesis using R unfolding order_like_def by blast
  qed
qed

lemma keeps_with_state: "(\<And>s0. keeps R (g s0)) \<Longrightarrow> keeps R (\<lambda>s. g s s)"
  by (auto simp add: keeps_def)

lemma keeps_for_each:
  assumes R: "order_like R" and b: "\<And>x. keeps R (body x)"
  shows "keeps R (for_each xs body)"
proof (induction xs)
  case Nil
  show ?case by (simp add: keeps_ret R)
next
  case (Cons x xs)
  show ?case
    unfolding for_each.simps
    by (rule keeps_and_then [OF R b]) (rule Cons)
qed

lemma order_like_same_memory: "order_like same_memory"
  by (simp add: order_like_def same_memory_def)

lemma no_mode_trans:
  assumes "\<exists>e. b = a @ e \<and> (\<forall>v. SPI_write [0x81, v] \<notin> set e)"
    and "\<exists>e. c = b @ e \<and> (\<forall>v. SPI_write [0x81, v] \<notin> set e)"
  shows "\<exists>e. c = a @ e \<and> (\<forall>v. SPI_write [0x81, v] \<notin> set e)"
proof -
  from assms obtain e1 e2 where "b = a @ e1" "\<forall>v. SPI_write [0x81, v] \<notin> set e1"
    "c = b @ e2" "\<forall>v. SPI_write [0x81, v] \<notin> set e2"
    by blast
  then have "c = a @ (e1 @ e2) \<and> (\<forall>v. SPI_write [0x81, v] \<notin> set (e1 @ e2))" by simp
  then show ?thesis by blast
qed

lemma configuring_refl: "configuring s s"
  by (simp add: configuring_def)

lemma configuring_trans: "configuring s t \<Longrightarrow> configuring t u \<Longrightarrow> configuring s u"
  unfolding configuring_def
  by (intro conjI no_mode_trans [of "log t" "log s" "log u"]) simp_all

lemma order_like_configuring: "order_like configuring"
  unfolding order_like_def using configuring_refl configuring_trans by blast

lemma order_like_grows: "order_like grows"
  by (auto simp add: order_like_def grows_def)

lemma keeps_as_byte: "order_like R \<Longrightarrow> keeps R (as_byte v)"
  by (auto simp add: as_byte_def intro: keeps_ret keeps_raise split: option.splits)

lemma keeps_getitem: "order_like R \<Longrightarrow> keeps R (getitem xs i)"
  by (auto simp add: getitem_def intro: keeps_ret keeps_raise)

lemma keeps_emit: "(\<And>s. R s (s\<lparr>log := log s @ [e]\<rparr>)) \<Longrightarrow> keeps R (emit e)"
  unfolding emit_def by (rule keeps_modify)

lemma keeps_write_u8:
  assumes R: "order_like R"
    and buf: "\<And>s b. R s (s\<lparr>BUFFER := b\<rparr>)"
    and ev: "\<And>s e. R s (s\<lparr>log := log s @ [e]\<rparr>)"
  shows "keeps R (write_u8 a v)"
proof -
  have last: "keeps R (\<lambda>s. emit (SPI_write [fst (BUFFER s), snd (BUFFER s)]) s)"
    by (rule keeps_with_state) (rule keeps_emit, rule ev)
  show ?thesis
    unfolding write_u8_def
    by (rule keeps_and_then [OF R keeps_as_byte [OF R]],
        rule keeps_and_then [OF R keeps_modify], rule buf,
        rule keeps_and_then [OF R keeps_as_byte [OF R]],
        rule keeps_and_then [OF R keeps_modify], rule buf, rule last)
qed

lemma keeps_table_entry: "order_like R \<Longrightarrow> keeps R (table_entry i)"
  by (auto simp add: keeps_def table_entry_def raise_def ret_def order_like_def split: option.splits)

lemma keeps_randint:
  "(\<And>s. R s (s\<lparr>rand_draws := Suc (rand_draws s)\<rparr>)) \<Longrightarrow> keeps R (randint w a b)"
  by (auto simp add: keeps_def randint_def)

subsection \<open>The transmit-complete poll\<close>

lemma poll_outcome_signal:
  "irq_level w (irq_reads s) \<Longrightarrow>
     poll_outcome w start timeout s False (s\<lparr>irq_reads := Suc (irq_reads s)\<rparr>)"
  by (auto simp add: poll_outcome_def)

lemma poll_outcome_expired:
  "\<not> irq_level w (irq_reads s) \<Longrightarrow> timeout \<le> float_sub w (monotonic w (clock_reads s)) start \<Longrightarrow>
     poll_outcome w start timeout s True
       (s\<lparr>irq_reads := Suc (irq_reads s), clock_reads := Suc (clock_reads s)\<rparr>)"
  by (auto simp add: poll_outcome_def)

lemma poll_outcome_step:
  assumes low: "\<not> irq_level w (irq_reads s)"
    and early: "float_sub w (monotonic w (clock_reads s)) start < timeout"
    and rest: "poll_outcome w start timeout
       (s\<lparr>irq_reads := Suc (irq_reads s), clock_reads := Suc (clock_reads s)\<rparr>) t s'"
  shows "poll_outcome w start timeout s t s'"
proof -
  let ?s2 = "s\<lparr>irq_reads := Suc (irq_reads s), clock_reads := Suc (clock_reads s)\<rparr>"
  from rest have
    eq: "s' = ?s2\<lparr>irq_reads := irq_reads s', clock_reads := clock_reads s'\<rparr>"
    and i: "Suc (irq_reads s) < irq_reads s'" and c: "Suc (clock_reads s) \<le> clock_reads s'"
    and il: "\<And>k. Suc (irq_reads s) \<le> k \<Longrightarrow> k < irq_reads s' - 1 \<Longrightarrow> \<not> irq_level w k"
    and cl: "\<And>k. Suc (clock_reads s) \<le> k \<Longrightarrow> k < clock_reads s' - 1 \<Longrightarrow>
               float_sub w (monotonic w k) start < timeout"
    and fin: "if t then Suc (clock_reads s) < clock_reads s' \<and>
                 timeout \<le> float_sub w (monotonic w (clock_reads s' - 1)) start \<and>
                 \<not> irq_level w (irq_reads s' - 1)
       else irq_level w (irq_reads s' - 1) \<and>
            (Suc (clock_reads s) < clock_reads s' \<longrightarrow>
               float_sub w (monotonic w (clock_reads s' - 1)) start < timeout)"
    unfolding poll_outcome_def by (auto split: if_splits)
  have eq': "s' = s\<lparr>irq_reads := irq_reads s', clock_reads := clock_reads s'\<rparr>"
    by (subst eq) simp
  have il': "\<not> irq_level w k" if "irq_reads s \<le> k" "k < irq_reads s' - 1" for k
    using that low il [of k] by (cases "k = irq_reads s") auto
  have cl': "float_sub w (monotonic w k) start < timeout" if "clock_reads s \<le> k" "k < clock_reads s' - 1" for k
    using that early cl [of k] by (cases "k = clock_reads s") auto
  have last: "float_sub w (monotonic w (clock_reads s' - 1)) start < timeout"
    if "\<not> t"
  proof (cases "Suc (clock_reads s) < clock_reads s'")
    case True
    with fin that show ?thesis by simp
  next
    case False
    with c have "clock_reads s' - 1 = clock_reads s" by simp
    with early show ?thesis by simp
  qed
  show ?thesis
    unfolding poll_outcome_def
    using eq' i c il' cl' fin last by auto
qed

lemma wait_tx_done_effect_pair:
  assumes "wait_tx_done w start timeout timed_out s = Some y"
  shows "(timed_out \<longrightarrow> y = (Inr True, s)) \<and>
         (\<not> timed_out \<longrightarrow> (\<exists>t. fst y = Inr t \<and> poll_outcome w start timeout s t (snd y)))"
proof (rule wait_tx_done.raw_induct [where P = "\<lambda>w start timeout timed_out s y.
         (timed_out \<longrightarrow> y = (Inr True, s)) \<and>
         (\<not> timed_out \<longrightarrow> (\<exists>t. fst y = Inr t \<and> poll_outcome w start timeout s t (snd y)))",
       OF _ assms])
  fix rec :: "env \<Rightarrow> real \<Rightarrow> real \<Rightarrow> bool \<Rightarrow> state \<Rightarrow> ((error + bool) \<times> state) option"
    and w start timeout timed_out s y
  assume IH: "\<And>w start timeout timed_out s y. rec w start timeout timed_out s = Some y \<Longrightarrow>
         (timed_out \<longrightarrow> y = (Inr True, s)) \<and>
         (\<not> timed_out \<longrightarrow> (\<exists>t. fst y = Inr t \<and> poll_outcome w start timeout s t (snd y)))"
    and body: "(if timed_out then Some (Inr timed_out, s)
      else case irq_value w s of
           (v, s1) \<Rightarrow>
             if v then Some (Inr timed_out, s1)
             else case time_monotonic w s1 of
                  (now, s2) \<Rightarrow>
                    rec w start timeout
                     (if timeout \<le> float_sub w now start then True else timed_out)
                     s2) = Some y"
  let ?goal = "(timed_out \<longrightarrow> y = (Inr True, s)) \<and>
         (\<not> timed_out \<longrightarrow> (\<exists>t. fst y = Inr t \<and> poll_outcome w start timeout s t (snd y)))"
  have "timed_out \<or> (\<not> timed_out \<and> irq_level w (irq_reads s)) \<or>
      (\<not> timed_out \<and> \<not> irq_level w (irq_reads s))" by blast
  then show ?goal
  proof (elim disjE conjE)
    assume to: "timed_out"
    from body have "Some (Inr timed_out, s) = Some y"
      by (simp only: to if_True)
    with to show ?goal by auto
  next
    assume running: "\<not> timed_out" and high: "irq_level w (irq_reads s)"
    from body have "(case irq_value w s of
           (v, s1) \<Rightarrow>
             if v then Some (Inr timed_out, s1)
             else case time_monotonic w s1 of
                  (now, s2) \<Rightarrow>
                    rec w start timeout
                     (if timeout \<le> float_sub w now start then True else timed_out)
                     s2) = Some y"
      by (simp only: running if_False)
    with running high have "y = (Inr False, s\<lparr>irq_reads := Suc (irq_reads s)\<rparr>)"
      by (simp add: irq_value_def)
    moreover have "poll_outcome w start timeout s False (s\<lparr>irq_reads := Suc (irq_reads s)\<rparr>)"
      using high by (rule poll_outcome_signal)
    ultimately have "fst y = Inr False \<and> poll_outcome w start timeout s False (snd y)"
      by simp
    then have "\<exists>t. fst y = Inr t \<and> poll_outcome w start timeout s t (snd y)" ..
    with running show ?goal by simp
  next
    assume running: "\<not> timed_out" and low: "\<not> irq_level w (irq_reads s)"
    let ?s2 = "s\<lparr>irq_reads := Suc (irq_reads s), clock_reads := Suc (clock_reads s)\<rparr>"
    let ?to = "timeout \<le> float_sub w (monotonic w (clock_reads s)) start"
    from running have flag: "(if ?to then True else timed_out) = ?to"
      by simp
    from body have "(case irq_value w s of
           (v, s1) \<Rightarrow>
             if v then Some (Inr timed_out, s1)
             else case time_monotonic w s1 of
                  (now, s2) \<Rightarrow>
                    rec w start timeout
                     (if timeout \<le> float_sub w now start then True else timed_out)
                     s2) = Some y"
      by (simp only: running if_False)
    with low have "rec w start timeout (if ?to then True else timed_out) ?s2 = Some y"
      by (simp add: irq_value_def time_monotonic_def)
    then have call: "rec w start timeout ?to ?s2 = Some y"
      by (simp only: flag)
    have ih: "(?to \<longrightarrow> y = (Inr True, ?s2)) \<and>
         (\<not> ?to \<longrightarrow> (\<exists>t. fst y = Inr t \<and> poll_outcome w start timeout ?s2 t (snd y)))"
      using call by (rule IH)
    show ?goal
    proof (cases ?to)
      case True
      with ih have "y = (Inr True, ?s2)" by simp
      moreover have "poll_outcome w start timeout s True ?s2"
        using low True by (rule poll_outcome_expired)
      ultimately have "fst y = Inr True \<and> poll_outcome w start timeout s True (snd y)"
        by simp
      then have "\<exists>t. fst y = Inr t \<and> poll_outcome w start timeout s t (snd y)" ..
      with running show ?goal by simp
    next
      case False
      with ih obtain t where t: "fst y = Inr t" "poll_outcome w start timeout ?s2 t (snd y)"
        by auto
      from False have early: "float_sub w (monotonic w (clock_reads s)) start < timeout"
        by simp
      from low early t(2) have "poll_outcome w start timeout s t (snd y)"
        by (rule poll_outcome_step)
      with t(1) have "\<exists>t. fst y = Inr t \<and> poll_outcome w start timeout s t (snd y)"
        by blast
      with running show ?goal by simp
    qed
  qed
qed

lemma wait_tx_done_effect:
  assumes "wait_tx_done w start timeout False s = Some (r, s')"
  shows "\<exists>t. r = Inr t \<and> poll_outcome w start timeout s t s'"
  using wait_tx_done_effect_pair [OF assms] by simp

subsection \<open>The set-up half of send\_packet\<close>

lemma stable_quiet: "stable R \<Longrightarrow> quiet R"
  by (simp add: stable_def)

lemma quiet_order: "quiet R \<Longrightarrow> order_like R"
  by (simp add: quiet_def)

lemma stable_order: "stable R \<Longrightarrow> order_like R"
  by (simp add: stable_def quiet_def)

lemma quiet_event:
  "quiet R \<Longrightarrow> (\<And>v. e \<noteq> SPI_write [0x81, v]) \<Longrightarrow> R s (s\<lparr>log := log s @ [e]\<rparr>)"
  by (simp add: quiet_def)

lemma quiet_buffer: "quiet R \<Longrightarrow> R s (s\<lparr>BUFFER := b\<rparr>)"
  by (cases b) (simp add: quiet_def)

lemma stable_fields:
  assumes "stable R"
  shows "R s (s\<lparr>rand_draws := k\<rparr>)" "R s (s\<lparr>tx_random := j\<rparr>)"
    "R s (s\<lparr>rfm_lsb := v\<rparr>)" "R s (s\<lparr>rfm_mid := v\<rparr>)" "R s (s\<lparr>rfm_msb := v\<rparr>)"
  using assms by (simp_all add: stable_def)

lemma R_trans: "order_like R \<Longrightarrow> R s t \<Longrightarrow> R t u \<Longrightarrow> R s u"
  unfolding order_like_def by blast

lemma R_refl: "order_like R \<Longrightarrow> R s s"
  unfolding order_like_def by blast

lemma keeps_for_each_mem:
  assumes R: "order_like R" and b: "\<And>x. x \<in> set xs \<Longrightarrow> keeps R (body x)"
  shows "keeps R (for_each xs body)"
  using b
proof (induction xs)
  case Nil
  show ?case by (simp add: keeps_ret R)
next
  case (Cons x xs)
  have "keeps R (body x)" by (rule Cons.prems) simp
  moreover have "keeps R (for_each xs body)"
    by (rule Cons.IH) (rule Cons.prems, simp)
  ultimately show ?case
    unfolding for_each.simps by (intro keeps_and_then [OF R]) simp_all
qed

lemma write_u8_failed:
  "write_u8 a v s = Some (Inl e, s') \<Longrightarrow>
     s' = s \<or> s' = s\<lparr>BUFFER := (word_of_int (a OR 0x80), snd (BUFFER s))\<rparr>"
  by (auto simp add: write_u8_def as_byte_def emit_def modify_def raise_def ret_def
      and_then_def split: option.splits if_splits)

lemma keeps_write_quiet:
  assumes qt: "quiet R"
    and q: "word_of_int (a OR 0x80) \<noteq> (0x81 :: byte)"
  shows "keeps R (write_u8 a v)"
proof (rule keepsI)
  fix s r s'
  assume run: "write_u8 a v s = Some (r, s')"
  have R: "order_like R" using qt by (rule quiet_order)
  from write_u8_cases [OF run] show "R s s'"
  proof
    assume "(r = Inl ValueError \<or> r = Inl BadOperand) \<and> log s' = log s"
    then obtain e where "r = Inl e" by blast
    with run have "s' = s \<or> s' = s\<lparr>BUFFER := (word_of_int (a OR 0x80), snd (BUFFER s))\<rparr>"
      using write_u8_failed [of a v s e s'] by simp
    moreover have "R s (s\<lparr>BUFFER := (word_of_int (a OR 0x80), snd (BUFFER s))\<rparr>)"
      using qt by (rule quiet_buffer)
    ultimately show ?thesis
      using R_refl [OF R, of s] by auto
  next
    assume "r = Inr () \<and> (\<exists>k. v = Some k \<and> 0 \<le> k \<and> k < 256 \<and> 0 \<le> a OR 0x80 \<and> a OR 0x80 < 256 \<and>
         s' = s\<lparr>BUFFER := (word_of_int (a OR 0x80), word_of_int k),
                 log := log s @ [SPI_write [word_of_int (a OR 0x80), word_of_int k]]\<rparr>)"
    then obtain k where k: "v = Some k" "0 \<le> k" "k < 256"
      and s': "s' = s\<lparr>BUFFER := (word_of_int (a OR 0x80), word_of_int k),
                 log := log s @ [SPI_write [word_of_int (a OR 0x80), word_of_int k]]\<rparr>"
      by blast
    let ?e = "SPI_write [word_of_int (a OR 0x80), word_of_int k]"
    let ?s1 = "s\<lparr>BUFFER := (word_of_int (a OR 0x80), word_of_int k)\<rparr>"
    have ne: "?e \<noteq> SPI_write [0x81, x]" for x
      using q by simp
    have "R s ?s1" using qt by (rule quiet_buffer)
    moreover have "R ?s1 (?s1\<lparr>log := log ?s1 @ [?e]\<rparr>)"
      using qt ne by (rule quiet_event)
    ultimately have "R s (?s1\<lparr>log := log ?s1 @ [?e]\<rparr>)"
      by (rule R_trans [OF R])
    then show ?thesis by (simp add: s')
  qed
qed

lemma keeps_table_entry_dyn:
  "order_like R \<Longrightarrow> keeps R (\<lambda>s. table_entry (tx_random s) s)"
  by (rule keeps_with_state) (rule keeps_table_entry)

lemma keeps_choose_channel:
  assumes st: "stable R"
  shows "keeps R (choose_channel w)"
proof -
  note R = stable_order [OF st]
  let ?B = "and_then (randint w 0 7) (\<lambda>r.
            and_then (modify (\<lambda>s. s\<lparr>tx_random := r\<rparr>)) (\<lambda>_.
            and_then (\<lambda>s. table_entry (tx_random s) s) (\<lambda>e2.
            and_then (modify (\<lambda>s. s\<lparr>rfm_lsb := Some (uint (snd (snd e2)))\<rparr>)) (\<lambda>_.
            and_then (\<lambda>s. table_entry (tx_random s) s) (\<lambda>e1.
            and_then (modify (\<lambda>s. s\<lparr>rfm_mid := Some (uint (fst (snd e1)))\<rparr>)) (\<lambda>_.
            and_then (\<lambda>s. table_entry (tx_random s) s) (\<lambda>e0.
            modify (\<lambda>s. s\<lparr>rfm_msb := Some (uint (fst e0))\<rparr>))))))))"
  have B: "keeps R ?B"
    by (intro keeps_and_then [OF R] keeps_randint keeps_modify keeps_table_entry_dyn [OF R]
        stable_fields [OF st])
  have each: "keeps R (case channel s0 of None \<Rightarrow> ?B | Some c \<Rightarrow> ret ())" for s0
    by (cases "channel s0") (simp_all add: B keeps_ret [OF R])
  show ?thesis
    unfolding choose_channel_def
    by (rule keeps_with_state [where g = "\<lambda>s0. case channel s0 of None \<Rightarrow> ?B | Some c \<Rightarrow> ret ()"])
       (rule each)
qed

lemma keeps_register_pairs:
  assumes qt: "quiet R"
    and that: "\<And>x. x \<in> set xs \<Longrightarrow> fst x \<in> {0x06, 0x07, 0x08, 0x1E, 0x1D, 0x26, 0x22, 0x0D}"
  shows "keeps R (for_each xs (\<lambda>pair. write_u8 (fst pair) (snd pair)))"
proof (rule keeps_for_each_mem [OF quiet_order [OF qt]])
  fix x
  assume "x \<in> set xs"
  then have "fst x \<in> {0x06, 0x07, 0x08, 0x1E, 0x1D, 0x26, 0x22, 0x0D}"
    by (rule that)
  then have "word_of_int (fst x OR 0x80) \<noteq> (0x81 :: byte)"
    by auto
  with qt show "keeps R (write_u8 (fst x) (snd x))"
    by (rule keeps_write_quiet)
qed

lemma keeps_load_registers:
  assumes qt: "quiet R"
  shows "keeps R (load_registers packet_length)"
  unfolding load_registers_def
  by (rule keeps_with_state, rule keeps_register_pairs [OF qt]) (auto simp add: constants)

lemma keeps_fill_fifo:
  assumes qt: "quiet R"
  shows "keeps R (fill_fifo lora_packet xs)"
  unfolding fill_fifo_def
proof (rule keeps_for_each [OF quiet_order [OF qt]])
  fix i
  show "keeps R (and_then (getitem lora_packet i) (\<lambda>b. write_u8 0x00 (Some (uint b))))"
    by (rule keeps_and_then [OF quiet_order [OF qt] keeps_getitem [OF quiet_order [OF qt]]])
       (rule keeps_write_quiet [OF qt], simp)
qed

lemma keeps_load:
  assumes st: "stable R"
  shows "keeps R (send_packet_load w lora_packet packet_length)"
proof -
  note qt = stable_quiet [OF st]
  note R = stable_order [OF st]
  have a2: "keeps R (emit (Time_sleep 0.01))"
    by (rule keeps_emit) (rule quiet_event [OF qt], simp)
  have a3: "keeps R (write_u8 0x40 (Some 0x40))"
    by (rule keeps_write_quiet [OF qt]) simp
  show ?thesis
    unfolding send_packet_load_def
    by (rule keeps_and_then [OF R a2], rule keeps_and_then [OF R a3],
        rule keeps_and_then [OF R keeps_choose_channel [OF st]],
        rule keeps_and_then [OF R keeps_load_registers [OF qt]],
        rule keeps_fill_fifo [OF qt])
qed

lemma standby_write:
  "write_u8 MODE_STDBY (Some 0x81) s =
     Some (Inr (), s\<lparr>BUFFER := (0x81, 0x81), log := log s @ [SPI_write [0x81, 0x81]]\<rparr>)"
  by (simp add: write_u8_byte constants)

lemma setup_cases:
  assumes "send_packet_setup w lora_packet packet_length s = Some (r, s')"
  shows "send_packet_load w lora_packet packet_length
      (s\<lparr>BUFFER := (0x81, 0x81), log := log s @ [SPI_write [0x81, 0x81]]\<rparr>) = Some (r, s')"
  using assms by (simp add: send_packet_setup_def and_then_def standby_write)

lemma keeps_setup:
  assumes st: "stable R"
    and sb: "\<And>s. R s (s\<lparr>log := log s @ [SPI_write [0x81, 0x81]]\<rparr>)"
  shows "keeps R (send_packet_setup w lora_packet packet_length)"
proof (rule keepsI)
  fix s r s'
  assume "send_packet_setup w lora_packet packet_length s = Some (r, s')"
  then have "send_packet_load w lora_packet packet_length
      (s\<lparr>BUFFER := (0x81, 0x81), log := log s @ [SPI_write [0x81, 0x81]]\<rparr>) = Some (r, s')"
    by (rule setup_cases)
  with keeps_load [OF st]
  have l: "R (s\<lparr>BUFFER := (0x81, 0x81), log := log s @ [SPI_write [0x81, 0x81]]\<rparr>) s'"
    by (rule keepsD)
  let ?s1 = "s\<lparr>BUFFER := (0x81, 0x81)\<rparr>"
  have "R s ?s1"
    using stable_quiet [OF st] by (rule quiet_buffer)
  moreover have "R ?s1 (?s1\<lparr>log := log ?s1 @ [SPI_write [0x81, 0x81]]\<rparr>)"
    by (rule sb)
  ultimately have "R s (?s1\<lparr>log := log ?s1 @ [SPI_write [0x81, 0x81]]\<rparr>)"
    by (rule R_trans [OF stable_order [OF st]])
  then have "R s (s\<lparr>BUFFER := (0x81, 0x81), log := log s @ [SPI_write [0x81, 0x81]]\<rparr>)"
    by simp
  then show "R s s'"
    using l by (rule R_trans [OF stable_order [OF st]])
qed

subsection \<open>The transmit half of send\_packet\<close>

lemma stable_same_memory: "stable same_memory"
  unfolding stable_def quiet_def
  by (intro conjI allI impI order_like_same_memory) (simp_all add: same_memory_def)

lemma stable_grows: "stable grows"
  unfolding stable_def quiet_def
  by (intro conjI allI impI order_like_grows) (simp_all add: grows_def)

lemma order_like_tuned: "order_like tuned"
  by (auto simp add: order_like_def tuned_def)

lemma quiet_tuned: "quiet tuned"
  unfolding quiet_def
  by (intro conjI allI impI order_like_tuned) (simp_all add: tuned_def)

lemma configuring_event:
  "(\<And>v. e \<noteq> SPI_write [0x81, v]) \<Longrightarrow> configuring s (s\<lparr>log := log s @ [e]\<rparr>)"
proof -
  assume "\<And>v. e \<noteq> SPI_write [0x81, v]"
  then have "log s @ [e] = log s @ [e] \<and> (\<forall>v. SPI_write [0x81, v] \<notin> set [e])" by auto
  then have "\<exists>evs. log s @ [e] = log s @ evs \<and> (\<forall>v. SPI_write [0x81, v] \<notin> set evs)" ..
  then show ?thesis by (simp add: configuring_def)
qed

lemma configuring_silent:
  "log s' = log s \<Longrightarrow> irq_reads s' = irq_reads s \<Longrightarrow> clock_reads s' = clock_reads s \<Longrightarrow>
   frequencies s' = frequencies s \<Longrightarrow> channel s' = channel s \<Longrightarrow> sf s' = sf s \<Longrightarrow>
   bw s' = bw s \<Longrightarrow> modemcfg s' = modemcfg s \<Longrightarrow> configuring s s'"
proof -
  assume a: "log s' = log s" "irq_reads s' = irq_reads s" "clock_reads s' = clock_reads s"
   "frequencies s' = frequencies s" "channel s' = channel s" "sf s' = sf s"
   "bw s' = bw s" "modemcfg s' = modemcfg s"
  have "log s = log s @ [] \<and> (\<forall>v. SPI_write [0x81, v] \<notin> set [])" by simp
  then have "\<exists>evs. log s = log s @ evs \<and> (\<forall>v. SPI_write [0x81, v] \<notin> set evs)" ..
  with a show ?thesis by (simp add: configuring_def)
qed

lemma stable_configuring: "stable configuring"
  unfolding stable_def quiet_def
  by (intro conjI allI impI order_like_configuring configuring_event)
     (simp_all add: configuring_silent)

lemma poll_outcome_fields:
  assumes "poll_outcome w start timeout s t s'"
  shows "log s' = log s" "heap s' = heap s" "heap_size s' = heap_size s"
    "frame_counter s' = frame_counter s" "ttn_config s' = ttn_config s"
    "BUFFER s' = BUFFER s"
proof -
  from assms have eq: "s' = s\<lparr>irq_reads := irq_reads s', clock_reads := clock_reads s'\<rparr>"
    by (simp add: poll_outcome_def)
  show "log s' = log s" by (subst eq) simp
  show "heap s' = heap s" by (subst eq) simp
  show "heap_size s' = heap_size s" by (subst eq) simp
  show "frame_counter s' = frame_counter s" by (subst eq) simp
  show "ttn_config s' = ttn_config s" by (subst eq) simp
  show "BUFFER s' = BUFFER s" by (subst eq) simp
qed

lemma transmit_effect:
  assumes run: "send_packet_transmit w timeout s = Some (r, s')"
  shows "\<exists>t s1. poll_outcome w (monotonic w (clock_reads s)) timeout
           (s\<lparr>BUFFER := (0x81, 0x83), log := log s @ [SPI_write [0x81, 0x83]],
              clock_reads := Suc (clock_reads s)\<rparr>) t s1 \<and>
         s' = s1\<lparr>BUFFER := (0x81, 0x00),
                 log := log s @ [SPI_write [0x81, 0x83], SPI_write [0x81, 0x00]]\<rparr> \<and>
         r = (if t then Inl SendTimeout else Inr ())"
proof -
  let ?s2 = "s\<lparr>BUFFER := (0x81, 0x83), log := log s @ [SPI_write [0x81, 0x83]],
              clock_reads := Suc (clock_reads s)\<rparr>"
  let ?start = "monotonic w (clock_reads s)"
  have tx: "write_u8 REG_OPERATING_MODE (Some MODE_TX) s =
      Some (Inr (), s\<lparr>BUFFER := (0x81, 0x83), log := log s @ [SPI_write [0x81, 0x83]]\<rparr>)"
    by (simp add: write_u8_byte constants)
  have sl: "write_u8 REG_OPERATING_MODE (Some MODE_SLEEP) u =
      Some (Inr (), u\<lparr>BUFFER := (0x81, 0x00), log := log u @ [SPI_write [0x81, 0x00]]\<rparr>)" for u
    by (simp add: write_u8_byte constants)
  from run have rest: "and_then (wait_tx_done w ?start timeout False) (\<lambda>timed_out.
     and_then (write_u8 REG_OPERATING_MODE (Some MODE_SLEEP)) (\<lambda>_.
     if timed_out then raise SendTimeout else ret ())) ?s2 = Some (r, s')"
    by (simp add: send_packet_transmit_def and_then_def tx lift_def time_monotonic_def)
  then show ?thesis
  proof (cases rule: and_then_cases)
    case (raised e)
    from wait_tx_done_effect [OF raised(1)] show ?thesis by simp
  next
    case (went_on t s1)
    from wait_tx_done_effect [OF went_on(1)] have po: "poll_outcome w ?start timeout ?s2 t s1"
      by simp
    from poll_outcome_fields(1) [OF po] have lg: "log s1 = log s @ [SPI_write [0x81, 0x83]]"
      by simp
    from went_on(2) have fin: "s' = s1\<lparr>BUFFER := (0x81, 0x00),
                 log := log s1 @ [SPI_write [0x81, 0x00]]\<rparr> \<and>
         r = (if t then Inl SendTimeout else Inr ())"
      by (cases t) (simp_all add: and_then_def sl raise_def ret_def)
    have "s' = s1\<lparr>BUFFER := (0x81, 0x00),
                 log := log s @ [SPI_write [0x81, 0x83], SPI_write [0x81, 0x00]]\<rparr>"
      using fin by (simp add: lg)
    with po fin show ?thesis by blast
  qed
qed

subsection \<open>Exceptions and termination of send\_packet\<close>

lemma raises_inI: "(\<And>s e s'. m s = Some (Inl e, s') \<Longrightarrow> e \<in> E) \<Longrightarrow> raises_in E m"
  by (simp add: raises_in_def)

lemma raises_inD: "raises_in E m \<Longrightarrow> m s = Some (Inl e, s') \<Longrightarrow> e \<in> E"
  unfolding raises_in_def by blast

lemma raises_in_ret: "raises_in E (ret x)"
  by (simp add: raises_in_def ret_def)

lemma raises_in_raise: "e \<in> E \<Longrightarrow> raises_in E (raise e)"
  by (simp add: raises_in_def raise_def)



lemma raises_in_and_then:
  assumes m: "raises_in E m" and f: "\<And>a. raises_in E (f a)"
  shows "raises_in E (and_then m f)"
proof (rule raises_inI)
  fix s e s'
  assume "and_then m f s = Some (Inl e, s')"
  then show "e \<in> E"
  proof (cases rule: and_then_cases)
    case (raised e')
    then show ?thesis using m by (auto dest: raises_inD)
  next
    case (went_on a s1)
    then show ?thesis using f by (auto dest: raises_inD)
  qed
qed


lemma raises_in_for_each:
  assumes b: "\<And>x. raises_in E (body x)"
  shows "raises_in E (for_each xs body)"
proof (induction xs)
  case Nil
  show ?case by (simp add: raises_in_ret)
next
  case (Cons x xs)
  show ?case
    unfolding for_each.simps
    by (rule raises_in_and_then [OF b]) (rule Cons)
qed

lemma raises_in_write_u8:
  assumes "ValueError \<in> E" and "BadOperand \<in> E"
  shows "raises_in E (write_u8 a v)"
proof (rule raises_inI)
  fix s e s'
  assume "write_u8 a v s = Some (Inl e, s')"
  from write_u8_cases [OF this] have "e = ValueError \<or> e = BadOperand" by auto
  with assms show "e \<in> E" by auto
qed

lemma raises_in_getitem: "IndexError \<in> E \<Longrightarrow> raises_in E (getitem xs i)"
  by (simp add: getitem_def raises_in_ret raises_in_raise)






lemma totalI: "(\<And>s. m s \<noteq> None) \<Longrightarrow> total m"
  by (simp add: total_def)

lemma totalD: "total m \<Longrightarrow> \<exists>r s'. m s = Some (r, s')"
proof -
  assume "total m"
  then have "m s \<noteq> None" unfolding total_def by blast
  then show ?thesis by (cases "m s") auto
qed

lemma total_ret: "total (ret x)"
  by (simp add: total_def ret_def)

lemma total_raise: "total (raise e)"
  by (simp add: total_def raise_def)

lemma total_modify: "total (modify f)"
  by (simp add: total_def modify_def)

lemma total_emit: "total (emit e)"
  by (simp add: emit_def total_modify)

lemma total_and_then:
  assumes m: "total m" and f: "\<And>a. total (f a)"
  shows "total (and_then m f)"
proof (rule totalI)
  fix s
  from totalD [OF m] obtain r s1 where ms: "m s = Some (r, s1)" by blast
  show "and_then m f s \<noteq> None"
  proof (cases r)
    case (Inl e)
    with ms show ?thesis by (simp add: and_then_def)
  next
    case (Inr a)
    from totalD [OF f] obtain r' s' where "f a s1 = Some (r', s')" by blast
    with ms Inr show ?thesis by (simp add: and_then_def)
  qed
qed

lemma total_with_state: "(\<And>s0. total (g s0)) \<Longrightarrow> total (\<lambda>s. g s s)"
  by (auto simp add: total_def)

lemma total_for_each:
  assumes b: "\<And>x. total (body x)"
  shows "total (for_each xs body)"
proof (induction xs)
  case Nil
  show ?case by (simp add: total_ret)
next
  case (Cons x xs)
  show ?case
    unfolding for_each.simps
    by (rule total_and_then [OF b]) (rule Cons)
qed

lemma total_as_byte: "total (as_byte v)"
  by (cases v) (simp_all add: as_byte_def total_ret total_raise)

lemma total_write_u8: "total (write_u8 a v)"
  unfolding write_u8_def
  by (rule total_and_then [OF total_as_byte], rule total_and_then [OF total_modify],
      rule total_and_then [OF total_as_byte], rule total_and_then [OF total_modify],
      rule total_with_state [where g = "\<lambda>s0. emit (SPI_write [fst (BUFFER s0), snd (BUFFER s0)])"],
      rule total_emit)

lemma total_getitem: "total (getitem xs i)"
  by (simp add: getitem_def total_ret total_raise)

lemma total_table_entry: "total (table_entry i)"
  by (auto simp add: total_def table_entry_def raise_def ret_def split: option.splits)

lemma total_randint: "total (randint w a b)"
  by (simp add: total_def randint_def)

lemma total_choose_channel: "total (choose_channel w)"
proof -
  note te = total_with_state [where g = "\<lambda>s0. table_entry (tx_random s0)",
      OF total_table_entry]
  let ?B = "and_then (randint w 0 7) (\<lambda>r.
            and_then (modify (\<lambda>s. s\<lparr>tx_random := r\<rparr>)) (\<lambda>_.
            and_then (\<lambda>s. table_entry (tx_random s) s) (\<lambda>e2.
            and_then (modify (\<lambda>s. s\<lparr>rfm_lsb := Some (uint (snd (snd e2)))\<rparr>)) (\<lambda>_.
            and_then (\<lambda>s. table_entry (tx_random s) s) (\<lambda>e1.
            and_then (modify (\<lambda>s. s\<lparr>rfm_mid := Some (uint (fst (snd e1)))\<rparr>)) (\<lambda>_.
            and_then (\<lambda>s. table_entry (tx_random s) s) (\<lambda>e0.
            modify (\<lambda>s. s\<lparr>rfm_msb := Some (uint (fst e0))\<rparr>))))))))"
  have B: "total ?B"
    by (rule total_and_then [OF total_randint],
        rule total_and_then [OF total_modify],
        rule total_and_then [OF te],
        rule total_and_then [OF total_modify],
        rule total_and_then [OF te],
        rule total_and_then [OF total_modify],
        rule total_and_then [OF te],
        rule total_modify)
  have each: "total (case channel s0 of None \<Rightarrow> ?B | Some c \<Rightarrow> ret ())" for s0
    by (cases "channel s0") (simp_all add: B total_ret)
  show ?thesis
    unfolding choose_channel_def
    by (rule total_with_state
          [where g = "\<lambda>s0. case channel s0 of None \<Rightarrow> ?B | Some c \<Rightarrow> ret ()"])
       (rule each)
qed

lemma total_load: "total (send_packet_load w lora_packet packet_length)"
proof -
  note wr = total_write_u8
  have a5: "total (load_registers packet_length)"
    unfolding load_registers_def
    by (rule total_with_state, rule total_for_each, rule wr)
  have a6: "total (fill_fifo lora_packet [0..<nat packet_length])"
    unfolding fill_fifo_def
    by (rule total_for_each, rule total_and_then [OF total_getitem], rule wr)
  show ?thesis
    unfolding send_packet_load_def
    by (rule total_and_then [OF total_emit], rule total_and_then [OF wr],
        rule total_and_then [OF total_choose_channel],
        rule total_and_then [OF a5], rule a6)
qed

lemma total_setup: "total (send_packet_setup w lora_packet packet_length)"
  unfolding send_packet_setup_def
  by (rule total_and_then [OF total_write_u8], rule total_load)

lemma wait_high:
  "irq_level w (irq_reads s) \<Longrightarrow>
     wait_tx_done w start timeout False s = Some (Inr False, s\<lparr>irq_reads := Suc (irq_reads s)\<rparr>)"
  by (subst wait_tx_done.simps) (simp add: irq_value_def)

lemma wait_expired:
  "\<not> irq_level w (irq_reads s) \<Longrightarrow> timeout \<le> float_sub w (monotonic w (clock_reads s)) start \<Longrightarrow>
     wait_tx_done w start timeout False s =
       Some (Inr True, s\<lparr>irq_reads := Suc (irq_reads s), clock_reads := Suc (clock_reads s)\<rparr>)"
  by (subst wait_tx_done.simps, simp add: irq_value_def time_monotonic_def,
      subst wait_tx_done.simps, simp)

lemma wait_again:
  "\<not> irq_level w (irq_reads s) \<Longrightarrow> float_sub w (monotonic w (clock_reads s)) start < timeout \<Longrightarrow>
     wait_tx_done w start timeout False s =
       wait_tx_done w start timeout False
         (s\<lparr>irq_reads := Suc (irq_reads s), clock_reads := Suc (clock_reads s)\<rparr>)"
  by (subst wait_tx_done.simps) (simp add: irq_value_def time_monotonic_def)

lemma wait_tx_done_returns:
  assumes "irq_level w (irq_reads s + j) \<or> timeout \<le> float_sub w (monotonic w (clock_reads s + j)) start"
  shows "wait_tx_done w start timeout False s \<noteq> None"
  using assms
proof (induction j arbitrary: s)
  case 0
  show ?case
  proof (cases "irq_level w (irq_reads s)")
    case True
    then show ?thesis by (simp add: wait_high)
  next
    case False
    with 0 have "timeout \<le> float_sub w (monotonic w (clock_reads s)) start" by simp
    with False show ?thesis by (simp add: wait_expired)
  qed
next
  case (Suc j)
  show ?case
  proof (cases "irq_level w (irq_reads s)")
    case True
    then show ?thesis by (simp add: wait_high)
  next
    case low: False
    show ?thesis
    proof (cases "timeout \<le> float_sub w (monotonic w (clock_reads s)) start")
      case True
      with low show ?thesis by (simp add: wait_expired)
    next
      case False
      let ?s2 = "s\<lparr>irq_reads := Suc (irq_reads s), clock_reads := Suc (clock_reads s)\<rparr>"
      from Suc.prems have "irq_level w (irq_reads ?s2 + j) \<or>
          timeout \<le> float_sub w (monotonic w (clock_reads ?s2 + j)) start"
        by simp
      then have "wait_tx_done w start timeout False ?s2 \<noteq> None"
        by (rule Suc.IH)
      moreover from low False have "wait_tx_done w start timeout False s =
          wait_tx_done w start timeout False ?s2"
        by (simp add: wait_again)
      ultimately show ?thesis by simp
    qed
  qed
qed

lemma transmit_returns:
  assumes "irq_level w (irq_reads s + j) \<or>
     timeout \<le> float_sub w (monotonic w (clock_reads s + 1 + j)) (monotonic w (clock_reads s))"
  shows "send_packet_transmit w timeout s \<noteq> None"
proof -
  let ?s2 = "s\<lparr>BUFFER := (0x81, 0x83), log := log s @ [SPI_write [0x81, 0x83]],
              clock_reads := Suc (clock_reads s)\<rparr>"
  let ?start = "monotonic w (clock_reads s)"
  have tx: "write_u8 REG_OPERATING_MODE (Some MODE_TX) s =
      Some (Inr (), s\<lparr>BUFFER := (0x81, 0x83), log := log s @ [SPI_write [0x81, 0x83]]\<rparr>)"
    by (simp add: write_u8_byte constants)
  have sl: "write_u8 REG_OPERATING_MODE (Some MODE_SLEEP) u =
      Some (Inr (), u\<lparr>BUFFER := (0x81, 0x00), log := log u @ [SPI_write [0x81, 0x00]]\<rparr>)" for u
    by (simp add: write_u8_byte constants)
  from assms have "irq_level w (irq_reads ?s2 + j) \<or>
     timeout \<le> float_sub w (monotonic w (clock_reads ?s2 + j)) ?start"
    by simp
  then have "wait_tx_done w ?start timeout False ?s2 \<noteq> None"
    by (rule wait_tx_done_returns)
  then obtain r s3 where w3: "wait_tx_done w ?start timeout False ?s2 = Some (r, s3)"
    by (cases "wait_tx_done w ?start timeout False ?s2") auto
  from wait_tx_done_effect [OF w3] obtain t where "r = Inr t" by blast
  with w3 show ?thesis
    by (cases t)
       (simp_all add: send_packet_transmit_def and_then_def tx sl lift_def time_monotonic_def
          raise_def ret_def)
qed



lemma send_packet_outcome:
  assumes run: "send_packet w lora_packet packet_length timeout s = Some (r, s')"
  shows "(\<exists>s1 t s2. send_packet_setup w lora_packet packet_length s = Some (Inr (), s1) \<and>
            poll_outcome w (monotonic w (clock_reads s1)) timeout
              (s1\<lparr>BUFFER := (0x81, 0x83), log := log s1 @ [SPI_write [0x81, 0x83]],
                  clock_reads := Suc (clock_reads s1)\<rparr>) t s2 \<and>
            s' = s2\<lparr>BUFFER := (0x81, 0x00),
                    log := log s1 @ [SPI_write [0x81, 0x83], SPI_write [0x81, 0x00]]\<rparr> \<and>
            r = (if t then Inl SendTimeout else Inr ()))
       \<or> (\<exists>e. r = Inl e \<and> send_packet_setup w lora_packet packet_length s = Some (Inl e, s'))"
proof -
  from run have "and_then (send_packet_setup w lora_packet packet_length)
      (\<lambda>_. send_packet_transmit w timeout) s = Some (r, s')"
    by (simp only: send_packet_split)
  then show ?thesis
  proof (cases rule: and_then_cases)
    case (raised e)
    then show ?thesis by blast
  next
    case (went_on a s1)
    from transmit_effect [OF went_on(2)] went_on(1) show ?thesis by auto
  qed
qed

lemma setup_effect:
  assumes "send_packet_setup w lora_packet packet_length s = Some (r, s1)"
  shows "configuring (s\<lparr>BUFFER := (0x81, 0x81), log := log s @ [SPI_write [0x81, 0x81]]\<rparr>) s1"
  using keeps_load [OF stable_configuring] setup_cases [OF assms] by (rule keepsD)

lemma setup_reads:
  assumes "send_packet_setup w lora_packet packet_length s = Some (r, s1)"
  shows "irq_reads s1 = irq_reads s" "clock_reads s1 = clock_reads s"
  using setup_effect [OF assms] by (simp_all add: configuring_def)


lemma send_packet_returns:
  assumes "irq_level w (irq_reads s + j) \<or>
     timeout \<le> float_sub w (monotonic w (clock_reads s + 1 + j)) (monotonic w (clock_reads s))"
  shows "\<exists>r s'. send_packet w lora_packet packet_length timeout s = Some (r, s')"
proof -
  from totalD [OF total_setup] obtain r1 s1
    where su: "send_packet_setup w lora_packet packet_length s = Some (r1, s1)"
    by blast
  note same = setup_reads [OF su]
  show ?thesis
  proof (cases r1)
    case (Inl e)
    with su show ?thesis by (simp add: send_packet_split and_then_def)
  next
    case (Inr a)
    from assms have "irq_level w (irq_reads s1 + j) \<or>
       timeout \<le> float_sub w (monotonic w (clock_reads s1 + 1 + j)) (monotonic w (clock_reads s1))"
      by (simp only: same)
    then have "send_packet_transmit w timeout s1 \<noteq> None"
      by (rule transmit_returns)
    then obtain y where "send_packet_transmit w timeout s1 = Some y" by blast
    with su Inr show ?thesis
      by (cases y) (simp add: send_packet_split and_then_def)
  qed
qed

subsection \<open>What a send leaves in memory\<close>

lemma keeps_setup_same_memory:
  "keeps same_memory (send_packet_setup w lora_packet packet_length)"
  by (rule keeps_setup [OF stable_same_memory]) (simp add: same_memory_def)

lemma send_packet_same_memory:
  assumes run: "send_packet w lora_packet packet_length timeout s = Some (r, s')"
  shows "same_memory s s'"
proof -
  from send_packet_outcome [OF run] show ?thesis
  proof
    assume "\<exists>e. r = Inl e \<and> send_packet_setup w lora_packet packet_length s = Some (Inl e, s')"
    then obtain e where su: "send_packet_setup w lora_packet packet_length s = Some (Inl e, s')"
      by blast
    show ?thesis
      using keeps_setup_same_memory su by (rule keepsD)
  next
    assume "\<exists>s1 t s2. send_packet_setup w lora_packet packet_length s = Some (Inr (), s1) \<and>
            poll_outcome w (monotonic w (clock_reads s1)) timeout
              (s1\<lparr>BUFFER := (0x81, 0x83), log := log s1 @ [SPI_write [0x81, 0x83]],
                  clock_reads := Suc (clock_reads s1)\<rparr>) t s2 \<and>
            s' = s2\<lparr>BUFFER := (0x81, 0x00),
                    log := log s1 @ [SPI_write [0x81, 0x83], SPI_write [0x81, 0x00]]\<rparr> \<and>
            r = (if t then Inl SendTimeout else Inr ())"
    then obtain s1 t s2
      where su: "send_packet_setup w lora_packet packet_length s = Some (Inr (), s1)"
      and po: "poll_outcome w (monotonic w (clock_reads s1)) timeout
              (s1\<lparr>BUFFER := (0x81, 0x83), log := log s1 @ [SPI_write [0x81, 0x83]],
                  clock_reads := Suc (clock_reads s1)\<rparr>) t s2"
      and s': "s' = s2\<lparr>BUFFER := (0x81, 0x00),
                    log := log s1 @ [SPI_write [0x81, 0x83], SPI_write [0x81, 0x00]]\<rparr>"
      by blast
    have m1: "same_memory s s1"
      using keeps_setup_same_memory su by (rule keepsD)
    note f = poll_outcome_fields [OF po]
    have "same_memory s1 s'"
      using f(2) f(3) f(4) f(5) by (simp add: same_memory_def s')
    with m1 show ?thesis
      by (rule R_trans [OF order_like_same_memory])
  qed
qed

text \<open>
  Claim C9. After a call of \<open>send_data\<close>, however it ends, the caller's payload buffer
  holds the bytes it held before. With a negative \<open>data_length\<close> the call raises at once
  and changes nothing. Otherwise the only bytearray written is the one the call allocated
  itself (\<open>enc_data\<close>, at a reference that was not in use): it holds the encryption of
  the first \<open>data_length\<close> bytes of the payload; every other bytearray is as it was, and
  the attribute \<open>frame_counter\<close> holds the value \<open>F\<close> the caller passed, neither
  incremented nor otherwise advanced. (\<open>encrypt\<close> of the \<open>AES\<close> class, which is not
  part of the sources, is taken to write only the bytearray it is given.)
\<close>

theorem payload_and_counter_unchanged:
  assumes ref: "data < heap_size s"
    and run: "send_data a w data data_length F timeout s = Some (r, s')"
  shows "heap s' data = heap s data \<and>
     (data_length < 0 \<longrightarrow> r = Inl ValueError \<and> s' = s) \<and>
     (0 \<le> data_length \<longrightarrow>
        frame_counter s' = F \<and> heap_size s' = Suc (heap_size s) \<and>
        heap s' = (heap s)(heap_size s :=
          aes_encrypt a (dev_addr (ttn_config s)) (app_key (ttn_config s))
            (net_key (ttn_config s)) F (take (nat data_length) (heap s data))))"
proof (cases "data_length < 0")
  case True
  then have "send_data_frame a data data_length F s = Some (Inl ValueError, s)"
    by (simp add: send_data_frame_char [OF ref])
  with run have "r = Inl ValueError \<and> s' = s"
    by (simp add: send_data_def and_then_def)
  with True show ?thesis by simp
next
  case False
  define enc where "enc = aes_encrypt a (dev_addr (ttn_config s)) (app_key (ttn_config s))
            (net_key (ttn_config s)) F (take (nat data_length) (heap s data))"
  define s1 where "s1 = s\<lparr>heap := (heap s)(heap_size s := enc),
      heap_size := Suc (heap_size s), frame_counter := F\<rparr>"
  have fr: "send_data_frame a data data_length F s =
      (if length (dev_addr (ttn_config s)) < 4 then Some (Inl IndexError, s1)
       else Some (Inr (frame_of a (ttn_config s) F enc (nat data_length),
                       9 + data_length + 4), s1))"
    using False by (simp add: send_data_frame_char [OF ref] Let_def enc_def s1_def)
  have mem: "same_memory s1 s'"
  proof (cases "length (dev_addr (ttn_config s)) < 4")
    case True
    with fr run have "s' = s1"
      by (simp add: send_data_def and_then_def)
    then show ?thesis
      by (simp add: R_refl [OF order_like_same_memory])
  next
    case False
    with fr run have "send_packet w (frame_of a (ttn_config s) F enc (nat data_length))
        (9 + data_length + 4) timeout s1 = Some (r, s')"
      by (simp add: send_data_def and_then_def)
    then show ?thesis
      by (rule send_packet_same_memory)
  qed
  have h: "heap s' = (heap s)(heap_size s := enc)"
    and c: "frame_counter s' = F" and z: "heap_size s' = Suc (heap_size s)"
    using mem by (simp_all add: same_memory_def s1_def)
  from ref have "heap s' data = heap s data"
    by (simp add: h)
  with False h c z show ?thesis
    by (simp add: enc_def)
qed

theorem payload_and_counter_unchanged_witness:
  "\<exists>r s'. send_data demo_aes demo_env 0 2 5 2 demo_radio = Some (r, s') \<and>
     heap demo_radio 0 = [0x01, 0x02] \<and> heap s' 0 = [0x01, 0x02] \<and>
     heap s' 1 = [0x54, 0x57] \<and> frame_counter demo_radio = 0 \<and> frame_counter s' = 5"
proof -
  have ref: "0 < heap_size demo_radio"
    by (simp add: demo_radio_def demo_state_def)
  obtain pkt s1 where fr: "send_data_frame demo_aes 0 2 5 demo_radio = Some (Inr (pkt, 15), s1)"
    and irq: "irq_reads s1 = 0"
    and clk: "clock_reads s1 = 0"
    by (simp add: send_data_frame_char demo_radio_def demo_state_def blank_def
        demo_ttn_def Let_def)
  have "irq_level demo_env (irq_reads s1 + 2) \<or>
     2 \<le> float_sub demo_env (monotonic demo_env (clock_reads s1 + 1 + 2)) (monotonic demo_env (clock_reads s1))"
    by (simp add: irq demo_env_def)
  then obtain r s' where "send_packet demo_env pkt 15 2 s1 = Some (r, s')"
    using send_packet_returns by blast
  with fr have run: "send_data demo_aes demo_env 0 2 5 2 demo_radio = Some (r, s')"
    by (simp add: send_data_def and_then_def)
  from payload_and_counter_unchanged [OF ref run]
  have "heap s' 0 = [0x01, 0x02] \<and> heap s' 1 = [0x54, 0x57] \<and> frame_counter s' = 5"
    by (simp add: demo_radio_def demo_state_def blank_def demo_ttn_def demo_aes_def)
  with run show ?thesis
    by (auto simp add: demo_radio_def demo_state_def blank_def)
qed

subsection \<open>When the set-up completes\<close>

lemma and_then_run: "m s = Some (Inr a, s1) \<Longrightarrow> and_then m f s = f a s1"
  by (simp add: and_then_def)

lemma and_then_fail: "m s = Some (Inl e, s1) \<Longrightarrow> and_then m f s = Some (Inl e, s1)"
  by (simp add: and_then_def)

lemma is_byteD: "is_byte v \<Longrightarrow> \<exists>k. v = Some k \<and> 0 \<le> k \<and> k < 256"
  by (cases v) (simp_all add: is_byte_def)

lemma is_byte_uint: "is_byte (Some (uint (b :: byte)))"
  using uint_lt2p [of b] by (simp add: is_byte_def)

lemma write_u8_is_byte:
  assumes "0 \<le> a" "a < 256" "is_byte v"
  shows "\<exists>b. write_u8 a v s =
     Some (Inr (), s\<lparr>BUFFER := (word_of_int (a OR 0x80), b),
                     log := log s @ [SPI_write [word_of_int (a OR 0x80), b]]\<rparr>)"
proof -
  from is_byteD [OF assms(3)] obtain k where "v = Some k" "0 \<le> k" "k < 256" by blast
  with assms(1,2) have "write_u8 a v s =
     Some (Inr (), s\<lparr>BUFFER := (word_of_int (a OR 0x80), word_of_int k),
                     log := log s @ [SPI_write [word_of_int (a OR 0x80), word_of_int k]]\<rparr>)"
    by (simp add: write_u8_byte)
  then show ?thesis ..
qed

lemma write_u8_only_if: "write_u8 a v s = Some (Inr (), s') \<Longrightarrow> is_byte v"
  using write_u8_cases [of a v s "Inr ()" s'] by (auto simp add: is_byte_def)

lemma choose_channel_fixed: "channel s = Some c \<Longrightarrow> choose_channel w s = Some (Inr (), s)"
  by (simp add: choose_channel_def ret_def)

lemma choose_channel_drawn:
  "channel s = None \<Longrightarrow> frequencies s (drawn w s) = Some (m, d, l) \<Longrightarrow>
     choose_channel w s =
       Some (Inr (), s\<lparr>rand_draws := Suc (rand_draws s), tx_random := drawn w s,
                       rfm_lsb := Some (uint l), rfm_mid := Some (uint d),
                       rfm_msb := Some (uint m)\<rparr>)"
  by (simp add: choose_channel_def randint_def and_then_def table_entry_def ret_def modify_def
      drawn_def)

lemma choose_channel_missing:
  "channel s = None \<Longrightarrow> frequencies s (drawn w s) = None \<Longrightarrow>
     choose_channel w s =
       Some (Inl LookupError, s\<lparr>rand_draws := Suc (rand_draws s), tx_random := drawn w s\<rparr>)"
  by (simp add: choose_channel_def randint_def and_then_def table_entry_def raise_def modify_def
      drawn_def)

lemma drawn_range: "0 \<le> drawn w s \<and> drawn w s \<le> 7"
  by (simp add: drawn_def)

lemma register_writes_run:
  assumes "\<And>p. p \<in> set xs \<Longrightarrow> 0 \<le> fst p \<and> fst p < 256 \<and> is_byte (snd p)"
  shows "\<exists>s'. for_each xs (\<lambda>pair. write_u8 (fst pair) (snd pair)) s = Some (Inr (), s')"
  using assms
proof (induction xs arbitrary: s)
  case Nil
  show ?case by (simp add: ret_def)
next
  case (Cons p xs)
  have "0 \<le> fst p" "fst p < 256" "is_byte (snd p)"
    using Cons.prems [of p] by simp_all
  from write_u8_is_byte [OF this] obtain s1
    where w1: "write_u8 (fst p) (snd p) s = Some (Inr (), s1)" by blast
  have "\<exists>s'. for_each xs (\<lambda>pair. write_u8 (fst pair) (snd pair)) s1 = Some (Inr (), s')"
    by (rule Cons.IH) (rule Cons.prems, simp)
  then show ?case
    by (simp add: and_then_def w1)
qed

lemma register_writes_only_if:
  assumes "for_each xs (\<lambda>pair. write_u8 (fst pair) (snd pair)) s = Some (Inr (), s')"
  shows "\<forall>p\<in>set xs. is_byte (snd p)"
  using assms
proof (induction xs arbitrary: s)
  case Nil
  show ?case by simp
next
  case (Cons p xs)
  from Cons.prems have "and_then (write_u8 (fst p) (snd p))
      (\<lambda>_. for_each xs (\<lambda>pair. write_u8 (fst pair) (snd pair))) s = Some (Inr (), s')"
    by simp
  then show ?case
  proof (cases rule: and_then_cases)
    case (raised e)
    then show ?thesis by simp
  next
    case (went_on a s1)
    from went_on(1) have "write_u8 (fst p) (snd p) s = Some (Inr (), s1)" by simp
    then have "is_byte (snd p)" by (rule write_u8_only_if)
    moreover from went_on(2) have "\<forall>p\<in>set xs. is_byte (snd p)" by (rule Cons.IH)
    ultimately show ?thesis by simp
  qed
qed

lemma fifo_write:
  "i < length pkt \<Longrightarrow>
     and_then (getitem pkt i) (\<lambda>b. write_u8 0x00 (Some (uint b))) s =
       Some (Inr (), s\<lparr>BUFFER := (0x80, pkt ! i), log := log s @ [SPI_write [0x80, pkt ! i]]\<rparr>)"
  by (simp add: getitem_def write_u8_def as_byte_uint as_byte_Some emit_def modify_def)

lemma fifo_write_only_if:
  "and_then (getitem pkt i) (\<lambda>b. write_u8 0x00 (Some (uint b))) s = Some (Inr (), s') \<Longrightarrow>
     i < length pkt"
  by (cases "i < length pkt") (simp_all add: getitem_def raise_def)

lemma fill_fifo_run:
  assumes "\<And>i. i \<in> set xs \<Longrightarrow> i < length pkt"
  shows "\<exists>b. fill_fifo pkt xs s =
     Some (Inr (), s\<lparr>BUFFER := b, log := log s @ map (\<lambda>i. SPI_write [0x80, pkt ! i]) xs\<rparr>)"
  using assms
proof (induction xs arbitrary: s)
  case Nil
  have "s = s\<lparr>BUFFER := BUFFER s, log := log s\<rparr>" by simp
  then have "fill_fifo pkt [] s =
     Some (Inr (), s\<lparr>BUFFER := BUFFER s, log := log s @ map (\<lambda>i. SPI_write [0x80, pkt ! i]) []\<rparr>)"
    by (simp add: fill_fifo_def ret_def)
  then show ?case ..
next
  case (Cons i xs)
  let ?s1 = "s\<lparr>BUFFER := (0x80, pkt ! i), log := log s @ [SPI_write [0x80, pkt ! i]]\<rparr>"
  have i: "i < length pkt" by (rule Cons.prems) simp
  have "\<exists>b. fill_fifo pkt xs ?s1 =
     Some (Inr (), ?s1\<lparr>BUFFER := b, log := log ?s1 @ map (\<lambda>i. SPI_write [0x80, pkt ! i]) xs\<rparr>)"
    by (rule Cons.IH) (rule Cons.prems, simp)
  then obtain b where "fill_fifo pkt xs ?s1 =
     Some (Inr (), ?s1\<lparr>BUFFER := b, log := log ?s1 @ map (\<lambda>i. SPI_write [0x80, pkt ! i]) xs\<rparr>)"
    ..
  moreover have "fill_fifo pkt (i # xs) s = fill_fifo pkt xs ?s1"
    using and_then_run [of "and_then (getitem pkt i) (\<lambda>b. write_u8 0x00 (Some (uint b)))" s
        "()" ?s1 "\<lambda>_. fill_fifo pkt xs", OF fifo_write [OF i]]
    by (simp add: fill_fifo_def)
  ultimately have "fill_fifo pkt (i # xs) s =
     Some (Inr (), s\<lparr>BUFFER := b, log := log s @ map (\<lambda>i. SPI_write [0x80, pkt ! i]) (i # xs)\<rparr>)"
    by simp
  then show ?case ..
qed

lemma fill_fifo_only_if:
  assumes "fill_fifo pkt xs s = Some (Inr (), s')"
  shows "\<forall>i\<in>set xs. i < length pkt"
  using assms
proof (induction xs arbitrary: s)
  case Nil
  show ?case by simp
next
  case (Cons i xs)
  from Cons.prems have "and_then (and_then (getitem pkt i) (\<lambda>b. write_u8 0x00 (Some (uint b))))
      (\<lambda>_. fill_fifo pkt xs) s = Some (Inr (), s')"
    by (simp add: fill_fifo_def)
  then show ?case
  proof (cases rule: and_then_cases)
    case (raised e)
    then show ?thesis by simp
  next
    case (went_on a s1)
    from went_on(1) have "and_then (getitem pkt i) (\<lambda>b. write_u8 0x00 (Some (uint b))) s =
        Some (Inr (), s1)" by simp
    then have "i < length pkt" by (rule fifo_write_only_if)
    moreover from went_on(2) have "\<forall>i\<in>set xs. i < length pkt" by (rule Cons.IH)
    ultimately show ?thesis by simp
  qed
qed


lemma and_then_write_u8:
  "0 \<le> a \<Longrightarrow> a < 256 \<Longrightarrow> 0 \<le> v \<Longrightarrow> v < 256 \<Longrightarrow>
     and_then (write_u8 a (Some v)) f s =
       f () (s\<lparr>BUFFER := (word_of_int (a OR 0x80), word_of_int v),
                log := log s @ [SPI_write [word_of_int (a OR 0x80), word_of_int v]]\<rparr>)"
  by (simp add: and_then_def write_u8_byte)

lemma setup_start:
  "send_packet_setup w pkt n s =
     and_then (choose_channel w) (\<lambda>_.
     and_then (load_registers n) (\<lambda>_. fill_fifo pkt [0..<nat n]))
       (s\<lparr>BUFFER := (0xC0, 0x40),
          log := log s @ [SPI_write [0x81, 0x81], Time_sleep 0.01, SPI_write [0xC0, 0x40]]\<rparr>)"
  by (simp add: send_packet_setup_def send_packet_load_def emit_def and_then_write_u8 constants)

lemma load_registers_run:
  assumes "is_byte (rfm_msb s)" "is_byte (rfm_mid s)" "is_byte (rfm_lsb s)"
    "is_byte (sf s)" "is_byte (bw s)" "is_byte (modemcfg s)" "0 \<le> n" "n < 256"
  shows "\<exists>s'. load_registers n s = Some (Inr (), s')"
  unfolding load_registers_def
  by (rule register_writes_run) (use assms in \<open>auto simp add: constants is_byte_def\<close>)

lemma load_registers_only_if:
  assumes "load_registers n s = Some (Inr (), s')"
  shows "is_byte (rfm_msb s) \<and> is_byte (rfm_mid s) \<and> is_byte (rfm_lsb s) \<and>
    is_byte (sf s) \<and> is_byte (bw s) \<and> is_byte (modemcfg s) \<and> 0 \<le> n \<and> n < 256"
  using register_writes_only_if [OF assms [unfolded load_registers_def]]
  by (simp add: is_byte_def)

lemma setup_succeeds:
  assumes ld: "loadable w pkt n s"
  shows "\<exists>s1. send_packet_setup w pkt n s = Some (Inr (), s1)"
proof -
  let ?s2 = "s\<lparr>BUFFER := (0xC0, 0x40),
          log := log s @ [SPI_write [0x81, 0x81], Time_sleep 0.01, SPI_write [0xC0, 0x40]]\<rparr>"
  from ld have n: "0 \<le> n" "n < 256" "nat n \<le> length pkt"
    and rate: "is_byte (sf s)" "is_byte (bw s)" "is_byte (modemcfg s)"
    by (simp_all add: loadable_def)
  have "\<exists>s3. choose_channel w ?s2 = Some (Inr (), s3) \<and> is_byte (rfm_msb s3) \<and>
      is_byte (rfm_mid s3) \<and> is_byte (rfm_lsb s3) \<and> sf s3 = sf s \<and> bw s3 = bw s \<and>
      modemcfg s3 = modemcfg s"
  proof (cases "channel s")
    case (Some c)
    with ld have "is_byte (rfm_msb s)" "is_byte (rfm_mid s)" "is_byte (rfm_lsb s)"
      by (simp_all add: loadable_def)
    moreover from Some have "choose_channel w ?s2 = Some (Inr (), ?s2)"
      by (simp add: choose_channel_fixed)
    ultimately show ?thesis by simp
  next
    case None
    with ld obtain m d l where "frequencies s (drawn w s) = Some (m, d, l)"
      by (auto simp add: loadable_def)
    with None have "choose_channel w ?s2 =
       Some (Inr (), ?s2\<lparr>rand_draws := Suc (rand_draws ?s2), tx_random := drawn w ?s2,
                       rfm_lsb := Some (uint l), rfm_mid := Some (uint d),
                       rfm_msb := Some (uint m)\<rparr>)"
      by (intro choose_channel_drawn) (simp_all add: drawn_def)
    then show ?thesis by (simp add: is_byte_uint)
  qed
  then obtain s3 where c3: "choose_channel w ?s2 = Some (Inr (), s3)"
    and f3: "is_byte (rfm_msb s3)" "is_byte (rfm_mid s3)" "is_byte (rfm_lsb s3)"
    and r3: "sf s3 = sf s" "bw s3 = bw s" "modemcfg s3 = modemcfg s"
    by blast
  from load_registers_run [OF f3, of n] rate n obtain s4
    where c4: "load_registers n s3 = Some (Inr (), s4)"
    by (auto simp add: r3)
  from fill_fifo_run [of "[0..<nat n]" pkt s4] n obtain s5
    where c5: "fill_fifo pkt [0..<nat n] s4 = Some (Inr (), s5)"
    by auto
  have "send_packet_setup w pkt n s = and_then (choose_channel w) (\<lambda>_.
     and_then (load_registers n) (\<lambda>_. fill_fifo pkt [0..<nat n])) ?s2"
    by (rule setup_start)
  also have "\<dots> = and_then (load_registers n) (\<lambda>_. fill_fifo pkt [0..<nat n]) s3"
    using c3 by (rule and_then_run)
  also have "\<dots> = fill_fifo pkt [0..<nat n] s4"
    using c4 by (rule and_then_run)
  also note c5
  finally show ?thesis ..
qed

lemma setup_only_if:
  assumes su: "send_packet_setup w pkt n s = Some (Inr (), s1)"
  shows "loadable w pkt n s"
proof -
  let ?s2 = "s\<lparr>BUFFER := (0xC0, 0x40),
          log := log s @ [SPI_write [0x81, 0x81], Time_sleep 0.01, SPI_write [0xC0, 0x40]]\<rparr>"
  from su have "and_then (choose_channel w) (\<lambda>_.
     and_then (load_registers n) (\<lambda>_. fill_fifo pkt [0..<nat n])) ?s2 = Some (Inr (), s1)"
    by (simp only: setup_start)
  then obtain a s3 where c3: "choose_channel w ?s2 = Some (Inr a, s3)"
    and rest: "and_then (load_registers n) (\<lambda>_. fill_fifo pkt [0..<nat n]) s3 = Some (Inr (), s1)"
    by (cases rule: and_then_cases) simp_all
  from rest obtain b s4 where c4: "load_registers n s3 = Some (Inr b, s4)"
    and c5: "fill_fifo pkt [0..<nat n] s4 = Some (Inr (), s1)"
    by (cases rule: and_then_cases) simp_all
  from c4 have "load_registers n s3 = Some (Inr (), s4)" by simp
  note regs = load_registers_only_if [OF this]
  from fill_fifo_only_if [OF c5] have len: "nat n \<le> length pkt"
    by (cases "nat n \<le> length pkt") auto
  have chan: "case channel s of
         Some c \<Rightarrow> is_byte (rfm_msb s) \<and> is_byte (rfm_mid s) \<and> is_byte (rfm_lsb s)
       | None \<Rightarrow> frequencies s (drawn w s) \<noteq> None"
    and rate: "sf s3 = sf s" "bw s3 = bw s" "modemcfg s3 = modemcfg s"
  proof -
    show "case channel s of
         Some c \<Rightarrow> is_byte (rfm_msb s) \<and> is_byte (rfm_mid s) \<and> is_byte (rfm_lsb s)
       | None \<Rightarrow> frequencies s (drawn w s) \<noteq> None"
    proof (cases "channel s")
      case (Some c)
      then have "choose_channel w ?s2 = Some (Inr (), ?s2)"
        by (simp add: choose_channel_fixed)
      with c3 have "s3 = ?s2" by simp
      with regs Some show ?thesis by simp
    next
      case None
      have "frequencies s (drawn w s) \<noteq> None"
      proof
        assume "frequencies s (drawn w s) = None"
        with None have "choose_channel w ?s2 =
          Some (Inl LookupError, ?s2\<lparr>rand_draws := Suc (rand_draws ?s2), tx_random := drawn w ?s2\<rparr>)"
          by (intro choose_channel_missing) (simp_all add: drawn_def)
        with c3 show False by simp
      qed
      with None show ?thesis by simp
    qed
    have "configuring ?s2 s3"
      using keeps_choose_channel [OF stable_configuring] c3 by (rule keepsD)
    then show "sf s3 = sf s" "bw s3 = bw s" "modemcfg s3 = modemcfg s"
      by (simp_all add: configuring_def)
  qed
  from regs rate len chan show ?thesis
    by (simp add: loadable_def)
qed

lemma setup_iff:
  "(\<exists>s1. send_packet_setup w pkt n s = Some (Inr (), s1)) \<longleftrightarrow> loadable w pkt n s"
  using setup_succeeds setup_only_if by blast


subsection \<open>Sleep after Transmit\<close>




lemma upt_two: "[0..<2] = [0, Suc 0]"
  by (simp add: upt_rec)

lemmas run_send_packet =
  send_packet_def and_then_def write_u8_byte constants emit_def modify_def ret_def
  raise_def getitem_def lift_def time_monotonic_def wait_high wait_again wait_expired
  demo_env_def demo_radio_def demo_state_def blank_def upt_two









subsection \<open>The channel of a send in multi-channel mode\<close>

lemma and_then_write_uint:
  "0 \<le> a \<Longrightarrow> a < 256 \<Longrightarrow>
     and_then (write_u8 a (Some (uint (b :: byte)))) f s =
       f () (s\<lparr>BUFFER := (word_of_int (a OR 0x80), b),
                log := log s @ [SPI_write [word_of_int (a OR 0x80), b]]\<rparr>)"
  using byte_of_or [of a]
  by (simp add: and_then_def write_u8_def as_byte_uint as_byte_Some emit_def modify_def)

lemma and_then_same: "m s = m' t \<Longrightarrow> and_then m f s = and_then m' f t"
  by (simp add: and_then_def)

lemma load_registers_frf:
  assumes "rfm_msb s = Some (uint m)" "rfm_mid s = Some (uint d)" "rfm_lsb s = Some (uint l)"
  shows "load_registers n s =
     for_each [(REG_FEI_LSB, sf s), (REG_FEI_MSB, bw s), (REG_MODEM_CONFIG, modemcfg s),
               (REG_PAYLOAD_LENGTH, Some n), (REG_FIFO_POINTER, Some REG_FIFO_BASE_ADDR)]
       (\<lambda>pair. write_u8 (fst pair) (snd pair))
       (s\<lparr>BUFFER := (0x88, l),
          log := log s @ [SPI_write [0x86, m], SPI_write [0x87, d], SPI_write [0x88, l]]\<rparr>)"
  by (simp add: load_registers_def assms and_then_write_uint REG_FRF_MSB_def REG_FRF_MID_def
      REG_FRF_LSB_def)

lemma poll_outcome_tuning:
  assumes "poll_outcome w start timeout s t s'"
  shows "tx_random s' = tx_random s" "rand_draws s' = rand_draws s"
    "rfm_msb s' = rfm_msb s" "rfm_mid s' = rfm_mid s" "rfm_lsb s' = rfm_lsb s"
proof -
  from assms have eq: "s' = s\<lparr>irq_reads := irq_reads s', clock_reads := clock_reads s'\<rparr>"
    by (simp add: poll_outcome_def)
  show "tx_random s' = tx_random s" by (subst eq) simp
  show "rand_draws s' = rand_draws s" by (subst eq) simp
  show "rfm_msb s' = rfm_msb s" by (subst eq) simp
  show "rfm_mid s' = rfm_mid s" by (subst eq) simp
  show "rfm_lsb s' = rfm_lsb s" by (subst eq) simp
qed

lemma keeps_tuned_transmit: "keeps tuned (send_packet_transmit w timeout)"
proof (rule keepsI)
  fix s r s'
  assume "send_packet_transmit w timeout s = Some (r, s')"
  from transmit_effect [OF this] obtain t s1
    where po: "poll_outcome w (monotonic w (clock_reads s)) timeout
           (s\<lparr>BUFFER := (0x81, 0x83), log := log s @ [SPI_write [0x81, 0x83]],
              clock_reads := Suc (clock_reads s)\<rparr>) t s1"
    and s': "s' = s1\<lparr>BUFFER := (0x81, 0x00),
                 log := log s @ [SPI_write [0x81, 0x83], SPI_write [0x81, 0x00]]\<rparr>"
    by blast
  note f = poll_outcome_tuning [OF po]
  show "tuned s s'"
    using f by (simp add: tuned_def s')
qed

lemma keeps_tuned_rest:
  "keeps tuned
     (and_then (and_then
        (for_each [(REG_FEI_LSB, x), (REG_FEI_MSB, y), (REG_MODEM_CONFIG, z),
               (REG_PAYLOAD_LENGTH, Some n), (REG_FIFO_POINTER, Some REG_FIFO_BASE_ADDR)]
           (\<lambda>pair. write_u8 (fst pair) (snd pair)))
        (\<lambda>_. fill_fifo pkt xs))
        (\<lambda>_. send_packet_transmit w timeout))"
proof -
  have a: "keeps tuned (for_each [(REG_FEI_LSB, x), (REG_FEI_MSB, y), (REG_MODEM_CONFIG, z),
               (REG_PAYLOAD_LENGTH, Some n), (REG_FIFO_POINTER, Some REG_FIFO_BASE_ADDR)]
           (\<lambda>pair. write_u8 (fst pair) (snd pair)))"
    by (rule keeps_register_pairs [OF quiet_tuned]) (auto simp add: constants)
  show ?thesis
    by (rule keeps_and_then [OF order_like_tuned], rule keeps_and_then [OF order_like_tuned a],
        rule keeps_fill_fifo [OF quiet_tuned], rule keeps_tuned_transmit)
qed

lemma raises_in_transmit: "raises_in {SendTimeout} (send_packet_transmit w timeout)"
proof (rule raises_inI)
  fix s e s'
  assume "send_packet_transmit w timeout s = Some (Inl e, s')"
  from transmit_effect [OF this] obtain t where "Inl e = (if t then Inl SendTimeout else Inr ())"
    by blast
  then have "e = SendTimeout" by (cases t) simp_all
  then show "e \<in> {SendTimeout}" by simp
qed

lemma raises_in_mono: "raises_in E m \<Longrightarrow> E \<subseteq> F \<Longrightarrow> raises_in F m"
  unfolding raises_in_def by blast

lemma raises_in_rest:
  "raises_in {ValueError, BadOperand, IndexError, SendTimeout}
     (and_then (and_then
        (for_each xs (\<lambda>pair. write_u8 (fst pair) (snd pair)))
        (\<lambda>_. fill_fifo pkt ys))
        (\<lambda>_. send_packet_transmit w timeout))"
proof -
  let ?E = "{ValueError, BadOperand, IndexError, SendTimeout}"
  have wr: "raises_in ?E (write_u8 a v)" for a v
    by (rule raises_in_write_u8) simp_all
  have a: "raises_in ?E (for_each xs (\<lambda>pair. write_u8 (fst pair) (snd pair)))"
    by (rule raises_in_for_each) (rule wr)
  have b: "raises_in ?E (fill_fifo pkt ys)"
    unfolding fill_fifo_def
    by (rule raises_in_for_each, rule raises_in_and_then [OF raises_in_getitem], simp, rule wr)
  have c: "raises_in ?E (send_packet_transmit w timeout)"
    by (rule raises_in_mono [OF raises_in_transmit]) simp
  show ?thesis
    by (rule raises_in_and_then, rule raises_in_and_then [OF a], rule b, rule c)
qed

lemma multi_channel_missing:
  assumes ch: "channel s = None" and fr: "frequencies s (drawn w s) = None"
  shows "send_packet w pkt n timeout s =
     Some (Inl LookupError,
       s\<lparr>BUFFER := (0xC0, 0x40),
         log := log s @ [SPI_write [0x81, 0x81], Time_sleep 0.01, SPI_write [0xC0, 0x40]],
         rand_draws := Suc (rand_draws s), tx_random := drawn w s\<rparr>)"
proof -
  let ?s2 = "s\<lparr>BUFFER := (0xC0, 0x40),
          log := log s @ [SPI_write [0x81, 0x81], Time_sleep 0.01, SPI_write [0xC0, 0x40]]\<rparr>"
  have "choose_channel w ?s2 =
      Some (Inl LookupError, ?s2\<lparr>rand_draws := Suc (rand_draws ?s2), tx_random := drawn w ?s2\<rparr>)"
    using ch fr by (intro choose_channel_missing) (simp_all add: drawn_def)
  then have "send_packet_setup w pkt n s =
      Some (Inl LookupError, ?s2\<lparr>rand_draws := Suc (rand_draws ?s2), tx_random := drawn w ?s2\<rparr>)"
    unfolding setup_start by (rule and_then_fail)
  then have "send_packet w pkt n timeout s =
      Some (Inl LookupError, ?s2\<lparr>rand_draws := Suc (rand_draws ?s2), tx_random := drawn w ?s2\<rparr>)"
    unfolding send_packet_split by (rule and_then_fail)
  then show ?thesis by (simp add: drawn_def)
qed

lemma multi_channel_drawn:
  assumes ch: "channel s = None" and fr: "frequencies s (drawn w s) = Some (m, d, l)"
    and run: "send_packet w pkt n timeout s = Some (r, s')"
  shows "tx_random s' = drawn w s \<and> rand_draws s' = Suc (rand_draws s) \<and>
     rfm_msb s' = Some (uint m) \<and> rfm_mid s' = Some (uint d) \<and> rfm_lsb s' = Some (uint l) \<and>
     prefix (log s @ [SPI_write [0x81, 0x81], Time_sleep 0.01, SPI_write [0xC0, 0x40],
                      SPI_write [0x86, m], SPI_write [0x87, d], SPI_write [0x88, l]]) (log s') \<and>
     r \<noteq> Inl LookupError"
proof -
  let ?s2 = "s\<lparr>BUFFER := (0xC0, 0x40),
          log := log s @ [SPI_write [0x81, 0x81], Time_sleep 0.01, SPI_write [0xC0, 0x40]]\<rparr>"
  let ?s3 = "?s2\<lparr>rand_draws := Suc (rand_draws ?s2), tx_random := drawn w ?s2,
                       rfm_lsb := Some (uint l), rfm_mid := Some (uint d),
                       rfm_msb := Some (uint m)\<rparr>"
  let ?s6 = "?s3\<lparr>BUFFER := (0x88, l),
          log := log ?s3 @ [SPI_write [0x86, m], SPI_write [0x87, d], SPI_write [0x88, l]]\<rparr>"
  let ?five = "for_each [(REG_FEI_LSB, sf ?s3), (REG_FEI_MSB, bw ?s3),
               (REG_MODEM_CONFIG, modemcfg ?s3),
               (REG_PAYLOAD_LENGTH, Some n), (REG_FIFO_POINTER, Some REG_FIFO_BASE_ADDR)]
       (\<lambda>pair. write_u8 (fst pair) (snd pair))"
  let ?rest = "and_then (and_then ?five (\<lambda>_. fill_fifo pkt [0..<nat n]))
        (\<lambda>_. send_packet_transmit w timeout)"
  have c3: "choose_channel w ?s2 = Some (Inr (), ?s3)"
    using ch fr by (intro choose_channel_drawn) (simp_all add: drawn_def)
  have l3: "load_registers n ?s3 = ?five ?s6"
    by (rule load_registers_frf) simp_all
  have "send_packet w pkt n timeout s =
      and_then (and_then (choose_channel w) (\<lambda>_.
        and_then (load_registers n) (\<lambda>_. fill_fifo pkt [0..<nat n])))
        (\<lambda>_. send_packet_transmit w timeout) s2" if "s2 = ?s2" for s2
    unfolding send_packet_split that
    by (simp add: and_then_def setup_start)
  then have "send_packet w pkt n timeout s =
      and_then (choose_channel w) (\<lambda>_.
        and_then (and_then (load_registers n) (\<lambda>_. fill_fifo pkt [0..<nat n]))
        (\<lambda>_. send_packet_transmit w timeout)) ?s2"
    by (simp only: and_then_assoc)
  also have "\<dots> = and_then (and_then (load_registers n) (\<lambda>_. fill_fifo pkt [0..<nat n]))
        (\<lambda>_. send_packet_transmit w timeout) ?s3"
    using c3 by (rule and_then_run)
  also have "\<dots> = ?rest ?s6"
    by (rule and_then_same, rule and_then_same, rule l3)
  finally have eq: "send_packet w pkt n timeout s = ?rest ?s6" .
  have rr: "?rest ?s6 = Some (r, s')"
    by (simp only: eq [symmetric] run)
  have t: "tuned ?s6 s'"
    using keeps_tuned_rest rr by (rule keepsD)
  have "r \<noteq> Inl LookupError"
  proof
    assume "r = Inl LookupError"
    with rr have "?rest ?s6 = Some (Inl LookupError, s')" by (simp only:)
    with raises_in_rest have "LookupError \<in> {ValueError, BadOperand, IndexError, SendTimeout}"
      by (rule raises_inD)
    then show False by (simp add: SendTimeout_def)
  qed
  with t show ?thesis
    by (simp add: tuned_def drawn_def)
qed


lemma demo_send_roaming:
  "send_packet demo_env [0x40, 0x88] 2 2 (demo_radio\<lparr>channel := None\<rparr>) =
     Some (Inr (), demo_radio\<lparr>channel := None, BUFFER := (0x81, 0x00),
       log := [SPI_write [0x81, 0x81], Time_sleep 0.01, SPI_write [0xC0, 0x40],
                SPI_write [0x86, 0xD9], SPI_write [0x87, 0x09], SPI_write [0x88, 0x8B],
                SPI_write [0x9E, 0x74], SPI_write [0x9D, 0x72], SPI_write [0xA6, 0x04],
                SPI_write [0xA2, 0x02], SPI_write [0x8D, 0x80],
                SPI_write [0x80, 0x40], SPI_write [0x80, 0x88],
                SPI_write [0x81, 0x83], SPI_write [0x81, 0x00]],
       rand_draws := 1, tx_random := 3, rfm_msb := Some 0xD9, rfm_mid := Some 0x09,
       rfm_lsb := Some 0x8B, irq_reads := 3, clock_reads := 3\<rparr>)"
  by (simp add: run_send_packet randint_def table_entry_def demo_plan_def)

text \<open>
  Against claim C7 as it is worded. The table \<open>short_plan\<close> provides one channel, the
  driver is in multi-channel mode, and \<open>randint(0, 7)\<close> draws 3: the index is outside the
  table, the lookup raises \<open>KeyError\<close>, and no frequency register is written.
\<close>

theorem channel_outside_table:
  "short_plan 0 = Some (0xD9, 0x06, 0x8B) \<and> short_plan 3 = None \<and>
   channel roaming_radio = None \<and> frequencies roaming_radio = short_plan \<and>
   send_packet demo_env [0x40, 0x88] 2 2 roaming_radio =
     Some (Inl LookupError,
       roaming_radio\<lparr>BUFFER := (0xC0, 0x40),
         log := [SPI_write [0x81, 0x81], Time_sleep 0.01, SPI_write [0xC0, 0x40]],
         rand_draws := 1, tx_random := 3\<rparr>)"
proof -
  have ch: "channel roaming_radio = None" and fr: "frequencies roaming_radio = short_plan"
    by (simp_all add: roaming_radio_def)
  have dr: "drawn demo_env roaming_radio = 3"
    by (simp add: drawn_def demo_env_def roaming_radio_def demo_radio_def demo_state_def
        blank_def)
  have "frequencies roaming_radio (drawn demo_env roaming_radio) = None"
    by (simp add: fr dr short_plan_def)
  from multi_channel_missing [OF ch this, of "[0x40, 0x88]" 2 2]
  have "send_packet demo_env [0x40, 0x88] 2 2 roaming_radio =
     Some (Inl LookupError,
       roaming_radio\<lparr>BUFFER := (0xC0, 0x40),
         log := [SPI_write [0x81, 0x81], Time_sleep 0.01, SPI_write [0xC0, 0x40]],
         rand_draws := 1, tx_random := 3\<rparr>)"
    by (simp add: dr) (simp add: roaming_radio_def demo_radio_def demo_state_def blank_def)
  with ch fr show ?thesis
    by (simp add: short_plan_def)
qed

text \<open>
  Claim C7, amended. In multi-channel mode the index of the channel is the number \<open>i\<close>
  that \<open>randint(0, 7)\<close> draws, between 0 and 7 whatever the size of the table. If the
  table has an entry at \<open>i\<close>, the three frequency attributes are set to that entry and
  the three frequency registers (\<open>0x86\<close>, \<open>0x87\<close>, \<open>0x88\<close> on the wire) are written
  with it, right after the Standby write, the delay and the write of the DIO mapping;
  the call does not raise \<open>KeyError\<close>. If the table has no entry at \<open>i\<close>, the call
  raises \<open>KeyError\<close>: the frequency attributes are as they were and no frequency register
  is written. So the triple programmed is an entry of the table for every table that
  defines all of the channels 0 to 7.
\<close>

theorem channel_from_table:
  assumes ch: "channel s = None"
    and run: "send_packet w lora_packet packet_length timeout s = Some (r, s')"
  shows "(let i = int (entropy w (rand_draws s) mod 8) in
      0 \<le> i \<and> i \<le> 7 \<and> tx_random s' = i \<and> rand_draws s' = Suc (rand_draws s) \<and>
      (case frequencies s i of
         Some (m, d, l) \<Rightarrow>
           rfm_msb s' = Some (uint m) \<and> rfm_mid s' = Some (uint d) \<and>
           rfm_lsb s' = Some (uint l) \<and>
           prefix (log s @ [SPI_write [0x81, 0x81], Time_sleep 0.01, SPI_write [0xC0, 0x40],
                            SPI_write [0x86, m], SPI_write [0x87, d], SPI_write [0x88, l]])
             (log s') \<and>
           r \<noteq> Inl LookupError
       | None \<Rightarrow>
           r = Inl LookupError \<and>
           log s' = log s @ [SPI_write [0x81, 0x81], Time_sleep 0.01, SPI_write [0xC0, 0x40]] \<and>
           rfm_msb s' = rfm_msb s \<and> rfm_mid s' = rfm_mid s \<and> rfm_lsb s' = rfm_lsb s)) \<and>
     ((\<forall>i. 0 \<le> i \<and> i \<le> 7 \<longrightarrow> frequencies s i \<noteq> None) \<longrightarrow>
        (\<exists>m d l. frequencies s (tx_random s') = Some (m, d, l) \<and>
           rfm_msb s' = Some (uint m) \<and> rfm_mid s' = Some (uint d) \<and>
           rfm_lsb s' = Some (uint l)))"
proof -
  have i: "int (entropy w (rand_draws s) mod 8) = drawn w s"
    by (simp add: drawn_def)
  have rng: "0 \<le> drawn w s \<and> drawn w s \<le> 7"
    by (rule drawn_range)
  show ?thesis
  proof (cases "frequencies s (drawn w s)")
    case None
    from multi_channel_missing [OF ch None, of lora_packet packet_length timeout] run
    have "r = Inl LookupError" and "s' = s\<lparr>BUFFER := (0xC0, 0x40),
         log := log s @ [SPI_write [0x81, 0x81], Time_sleep 0.01, SPI_write [0xC0, 0x40]],
         rand_draws := Suc (rand_draws s), tx_random := drawn w s\<rparr>"
      by simp_all
    with None rng show ?thesis
      unfolding Let_def i by auto
  next
    case (Some e)
    obtain m d l where e: "e = (m, d, l)" by (cases e)
    from Some e have fr: "frequencies s (drawn w s) = Some (m, d, l)" by simp
    note facts = multi_channel_drawn [OF ch fr run]
    from facts have tx: "tx_random s' = drawn w s" by simp
    from facts fr rng show ?thesis
      unfolding Let_def i by (simp add: tx)
  qed
qed

theorem channel_from_table_witness:
  "channel (demo_radio\<lparr>channel := None\<rparr>) = None \<and>
   frequencies (demo_radio\<lparr>channel := None\<rparr>) 3 = Some (0xD9, 0x09, 0x8B) \<and>
   (\<exists>s'. send_packet demo_env [0x40, 0x88] 2 2 (demo_radio\<lparr>channel := None\<rparr>) =
        Some (Inr (), s') \<and>
      tx_random s' = 3 \<and> rfm_msb s' = Some 0xD9 \<and> rfm_mid s' = Some 0x09 \<and>
      rfm_lsb s' = Some 0x8B \<and>
      prefix [SPI_write [0x81, 0x81], Time_sleep 0.01, SPI_write [0xC0, 0x40],
              SPI_write [0x86, 0xD9], SPI_write [0x87, 0x09], SPI_write [0x88, 0x8B]] (log s'))"
proof -
  let ?s = "demo_radio\<lparr>channel := None\<rparr>"
  have ch: "channel ?s = None" by simp
  have fr: "frequencies ?s 3 = Some (0xD9, 0x09, 0x8B)"
    by (simp add: demo_radio_def demo_plan_def)
  obtain s' where run: "send_packet demo_env [0x40, 0x88] 2 2 ?s = Some (Inr (), s')"
    using demo_send_roaming by simp
  have dr: "int (entropy demo_env (rand_draws ?s) mod 8) = 3"
    by (simp add: demo_env_def demo_radio_def demo_state_def blank_def)
  have lg: "log ?s = []"
    by (simp add: demo_radio_def demo_state_def blank_def)
  from channel_from_table [OF ch run]
  have "tx_random s' = 3 \<and> rfm_msb s' = Some 0xD9 \<and> rfm_mid s' = Some 0x09 \<and>
      rfm_lsb s' = Some 0x8B \<and>
      prefix [SPI_write [0x81, 0x81], Time_sleep 0.01, SPI_write [0xC0, 0x40],
              SPI_write [0x86, 0xD9], SPI_write [0x87, 0x09], SPI_write [0x88, 0x8B]] (log s')"
    unfolding Let_def dr fr lg by simp
  with ch fr run show ?thesis by blast
qed

subsection \<open>The bus trace of a send\<close>









subsection \<open>Frames of any size\<close>










end
